theory Spec2Isabelle
  imports Main "HOL-Library.Word"
begin

unbundle bit_operations_syntax

section \<open>Data model of the TM4C123 driver\<close>

text \<open>
  The driver (src/drivers/TM4C123/driver.c) keeps its state in file-level statics and in
  the registers of the microcontroller's peripherals. Both are fields of one record
  \<open>driver\<close>; every function of the source that mutates them takes the record and
  returns it updated. Every call into the peripheral library and every upstream callback
  is also appended to \<open>trace\<close>, so that "is written", "is armed" and "is invoked" can be
  stated about what a function did, not only about the registers it left behind.
\<close>

text \<open>
  Bytes and 32-bit words. \<open>uint_fast16_t\<close>, the type of the PWM values and of the cells the
  atomic helpers work on, is 32 bits wide on this target.
\<close>
type_synonym u8 = "8 word"
type_synonym u32 = "32 word"

text \<open>\<open>axes_signals_t\<close>: the \<open>value\<close>/\<open>mask\<close> byte of the union, bit0 = X, bit1 = Y, bit2 = Z.\<close>
type_synonym axes_signals_t = u8

text \<open>A function pointer \<open>void (*callback)(void)\<close>; \<open>None\<close> is the null pointer.\<close>
type_synonym callback = nat

text \<open>
  \<open>STEP_OUTMODE\<close> and \<open>DIRECTION_OUTMODE\<close> (driver.h) select the lookup-table variant
  (\<open>GPIO_MAP\<close>) or the shift variant, where the macro is the shift count.
\<close>
datatype outmode = GPIO_MAP | GPIO_SHIFT nat

text \<open>
  The macros of driver.h (ports, pins, timer bases, \<open>PWM_RAMPED\<close>), the fields of the
  global \<open>settings\<close> and of \<open>spindle_pwm\<close> that the functions below read. None of them is
  written by the code modelled here.
\<close>
record config =
  STEP_PORT :: u32
  HWSTEP_MASK :: u8
  STEP_OUTMODE :: outmode
  DIRECTION_PORT :: u32
  HWDIRECTION_MASK :: u8
  DIRECTION_OUTMODE :: outmode
  LIMIT_PORT :: u32
  HWLIMIT_MASK :: u8
  X_LIMIT_PIN :: u8
  Y_LIMIT_PIN :: u8
  Z_LIMIT_PIN :: u8
  PROBE_PORT :: u32
  PROBE_PIN :: u8
  SPINDLE_ENABLE_PORT :: u32
  SPINDLE_ENABLE_PIN :: u8
  PULSE_TIMER_BASE :: u32
  DEBOUNCE_TIMER_BASE :: u32
  SPINDLE_PWM_TIMER_BASE :: u32
  PWM_RAMPED :: bool
  step_invert :: u8
  dir_invert :: u8
  limits_invert :: u8
  spindle_invert_on :: bool
  spindle_invert_pwm :: bool
  disable_with_zero_speed :: bool
  pulse_delay_microseconds :: u32
  pwm_period :: u32
  pwm_off_value :: u32
  pwm_min_value :: u32
  pwm_always_on :: bool

text \<open>Calls into the peripheral library and into the upstream handlers, as logged.\<close>
datatype call =
    E_GPIOPinWrite u32 u8 u8
  | E_GPIOIntClear u32 u32
  | E_TimerEnable u32
  | E_TimerDisable u32
  | E_TimerLoadSet u32 u32
  | E_TimerMatchSet u32 u32
  | E_TimerPrescaleSet u32 u32
  | E_TimerPrescaleMatchSet u32 u32
  | E_TimerControlLevel u32 bool
  | E_TimerIntClear u32 u32
  | E_SysTickEnable
  | E_SysTickDisable
  | E_IntMasterDisable
  | E_IntMasterEnable
  | E_callback callback
  | E_limit_interrupt_callback axes_signals_t

text \<open>
  The statics of driver.c (\<open>pwmEnabled\<close>, \<open>probeState\<close>, \<open>next_step_outbits\<close>, \<open>delay\<close>,
  \<open>probe_invert\<close>, the two lookup tables, \<open>pwm_ramp\<close>), then the peripheral registers:
  GPIO data and masked interrupt status per port, the registers of each general-purpose
  timer per base address, the SysTick enable bit, the processor's interrupt master
  enable, and the memory cells the atomic helpers point into. The 32-bit signed fields
  of \<open>pwm_ramp\<close> are words read with \<open>sint\<close>; its cadence counter, which the source
  writes \<open>pwm_ramp.delay.ms\<close>, is \<open>ramp_delay_ms\<close>. \<open>uninit_signals\<close> is the indeterminate
  content of the local \<open>signals\<close> that \<open>limitsGetState\<close> declares without initialiser.
\<close>
record driver =
  pwmEnabled :: bool
  probeState :: bool
  next_step_outbits :: axes_signals_t
  delay_ms :: u32
  delay_callback :: "callback option"
  probe_invert :: u8
  step_outmap :: "u8 list"
  dir_outmap :: "u8 list"
  ms_cfg :: u32
  ramp_delay_ms :: u32
  pwm_current :: u32
  pwm_target :: u32
  pwm_step :: u32
  uninit_signals :: u8
  gpio_data :: "u32 \<Rightarrow> u8"
  gpio_mis :: "u32 \<Rightarrow> u32"
  timer_enabled :: "u32 \<Rightarrow> bool"
  timer_load :: "u32 \<Rightarrow> u32"
  timer_count :: "u32 \<Rightarrow> u32"
  timer_match :: "u32 \<Rightarrow> u32"
  timer_prescale :: "u32 \<Rightarrow> u32"
  timer_prescale_match :: "u32 \<Rightarrow> u32"
  timer_level :: "u32 \<Rightarrow> bool"
  timer_mis :: "u32 \<Rightarrow> u32"
  systick_enabled :: bool
  int_master :: bool
  mem :: "u32 \<Rightarrow> u32"
  trace :: "call list"

text \<open>\<open>stepper_t\<close>: the three fields the pulse generator reads.\<close>
record stepper_t =
  new_block :: bool
  dir_outbits :: axes_signals_t
  step_outbits :: axes_signals_t

section \<open>The peripheral library\<close>

text \<open>
  The TivaWare calls the driver makes, as register updates. \<open>GPIOPinWrite\<close> writes the
  bits of \<open>val\<close> selected by \<open>pins\<close> and leaves the other pins of the port alone.
  \<open>TimerLoadSet\<close> writes the interval-load register; the timers are configured with the
  load-on-write behaviour (TnILD clear, as \<open>TimerConfigure\<close> leaves it), so the counter
  takes the new value at once, also while it is running.
\<close>

definition emit :: "call \<Rightarrow> driver \<Rightarrow> driver" where
  "emit c s = s\<lparr>trace := trace s @ [c]\<rparr>"

definition GPIOPinWrite :: "u32 \<Rightarrow> u8 \<Rightarrow> u8 \<Rightarrow> driver \<Rightarrow> driver" where
  "GPIOPinWrite port pins val s =
     emit (E_GPIOPinWrite port pins val)
       (s\<lparr>gpio_data := (gpio_data s)(port := (gpio_data s port AND NOT pins) OR (val AND pins))\<rparr>)"

definition GPIOPinRead :: "u32 \<Rightarrow> u8 \<Rightarrow> driver \<Rightarrow> u8" where
  "GPIOPinRead port pins s = gpio_data s port AND pins"

definition GPIOIntStatus :: "u32 \<Rightarrow> driver \<Rightarrow> u32" where
  "GPIOIntStatus port s = gpio_mis s port"

definition GPIOIntClear :: "u32 \<Rightarrow> u32 \<Rightarrow> driver \<Rightarrow> driver" where
  "GPIOIntClear port flags s =
     emit (E_GPIOIntClear port flags)
       (s\<lparr>gpio_mis := (gpio_mis s)(port := gpio_mis s port AND NOT flags)\<rparr>)"

definition TimerEnable :: "u32 \<Rightarrow> driver \<Rightarrow> driver" where
  "TimerEnable base s = emit (E_TimerEnable base) (s\<lparr>timer_enabled := (timer_enabled s)(base := True)\<rparr>)"

definition TimerDisable :: "u32 \<Rightarrow> driver \<Rightarrow> driver" where
  "TimerDisable base s = emit (E_TimerDisable base) (s\<lparr>timer_enabled := (timer_enabled s)(base := False)\<rparr>)"

definition TimerLoadSet :: "u32 \<Rightarrow> u32 \<Rightarrow> driver \<Rightarrow> driver" where
  "TimerLoadSet base v s =
     emit (E_TimerLoadSet base v)
       (s\<lparr>timer_load := (timer_load s)(base := v), timer_count := (timer_count s)(base := v)\<rparr>)"

definition TimerMatchSet :: "u32 \<Rightarrow> u32 \<Rightarrow> driver \<Rightarrow> driver" where
  "TimerMatchSet base v s = emit (E_TimerMatchSet base v) (s\<lparr>timer_match := (timer_match s)(base := v)\<rparr>)"

definition TimerPrescaleSet :: "u32 \<Rightarrow> u32 \<Rightarrow> driver \<Rightarrow> driver" where
  "TimerPrescaleSet base v s =
     emit (E_TimerPrescaleSet base v) (s\<lparr>timer_prescale := (timer_prescale s)(base := v)\<rparr>)"

definition TimerPrescaleMatchSet :: "u32 \<Rightarrow> u32 \<Rightarrow> driver \<Rightarrow> driver" where
  "TimerPrescaleMatchSet base v s =
     emit (E_TimerPrescaleMatchSet base v)
       (s\<lparr>timer_prescale_match := (timer_prescale_match s)(base := v)\<rparr>)"

definition TimerControlLevel :: "u32 \<Rightarrow> bool \<Rightarrow> driver \<Rightarrow> driver" where
  "TimerControlLevel base invert s =
     emit (E_TimerControlLevel base invert) (s\<lparr>timer_level := (timer_level s)(base := invert)\<rparr>)"

definition TimerIntStatus :: "u32 \<Rightarrow> driver \<Rightarrow> u32" where
  "TimerIntStatus base s = timer_mis s base"

definition TimerIntClear :: "u32 \<Rightarrow> u32 \<Rightarrow> driver \<Rightarrow> driver" where
  "TimerIntClear base flags s =
     emit (E_TimerIntClear base flags)
       (s\<lparr>timer_mis := (timer_mis s)(base := timer_mis s base AND NOT flags)\<rparr>)"

definition SysTickEnable :: "driver \<Rightarrow> driver" where
  "SysTickEnable s = emit E_SysTickEnable (s\<lparr>systick_enabled := True\<rparr>)"

definition SysTickDisable :: "driver \<Rightarrow> driver" where
  "SysTickDisable s = emit E_SysTickDisable (s\<lparr>systick_enabled := False\<rparr>)"

definition IntMasterDisable :: "driver \<Rightarrow> driver" where
  "IntMasterDisable s = emit E_IntMasterDisable (s\<lparr>int_master := False\<rparr>)"

definition IntMasterEnable :: "driver \<Rightarrow> driver" where
  "IntMasterEnable s = emit E_IntMasterEnable (s\<lparr>int_master := True\<rparr>)"

text \<open>\<open>TIMER_TIMA_TIMEOUT\<close> and \<open>TIMER_TIMA_MATCH\<close> of the library's timer.h.\<close>
definition TIMER_TIMA_TIMEOUT :: u32 where "TIMER_TIMA_TIMEOUT = 0x01"
definition TIMER_TIMA_MATCH :: u32 where "TIMER_TIMA_MATCH = 0x10"

text \<open>
  Invoking a function pointer. The callee belongs to the upstream core; what it does to
  the driver is not part of driver.c, so the call is logged and the state is left as it is.
\<close>
definition invoke :: "callback \<Rightarrow> driver \<Rightarrow> driver" where
  "invoke cb s = emit (E_callback cb) s"

definition limit_interrupt_callback :: "axes_signals_t \<Rightarrow> driver \<Rightarrow> driver" where
  "limit_interrupt_callback state s = emit (E_limit_interrupt_callback state) s"

section \<open>Atomic helpers (driver.c 681-705)\<close>

definition bitsSetAtomic :: "u32 \<Rightarrow> u32 \<Rightarrow> driver \<Rightarrow> driver" where
  "bitsSetAtomic ptr bits s =
     (let s1 = IntMasterDisable s;
          s2 = s1\<lparr>mem := (mem s1)(ptr := mem s1 ptr OR bits)\<rparr>
      in IntMasterEnable s2)"

definition bitsClearAtomic :: "u32 \<Rightarrow> u32 \<Rightarrow> driver \<Rightarrow> u32 \<times> driver" where
  "bitsClearAtomic ptr bits s =
     (let s1 = IntMasterDisable s;
          prev = mem s1 ptr;
          s2 = s1\<lparr>mem := (mem s1)(ptr := mem s1 ptr AND NOT bits)\<rparr>
      in (prev, IntMasterEnable s2))"

definition valueSetAtomic :: "u32 \<Rightarrow> u32 \<Rightarrow> driver \<Rightarrow> u32 \<times> driver" where
  "valueSetAtomic ptr v s =
     (let s1 = IntMasterDisable s;
          prev = mem s1 ptr;
          s2 = s1\<lparr>mem := (mem s1)(ptr := v)\<rparr>
      in (prev, IntMasterEnable s2))"

section \<open>Pulse generator (driver.c 180-317, 1283-1294)\<close>

text \<open>
  \<open>set_step_outputs\<close> and \<open>set_dir_outputs\<close>, both preprocessor variants. The table
  variant indexes an 8-entry array with the bitset; an index of 8 or more is out of
  bounds in the source as it is here.
\<close>
definition set_step_outputs :: "config \<Rightarrow> axes_signals_t \<Rightarrow> driver \<Rightarrow> driver" where
  "set_step_outputs cfg bits s =
     (case STEP_OUTMODE cfg of
        GPIO_MAP \<Rightarrow> GPIOPinWrite (STEP_PORT cfg) (HWSTEP_MASK cfg) (step_outmap s ! unat bits) s
      | GPIO_SHIFT n \<Rightarrow>
          GPIOPinWrite (STEP_PORT cfg) (HWSTEP_MASK cfg) (push_bit n (bits XOR step_invert cfg)) s)"

definition set_dir_outputs :: "config \<Rightarrow> axes_signals_t \<Rightarrow> driver \<Rightarrow> driver" where
  "set_dir_outputs cfg bits s =
     (case DIRECTION_OUTMODE cfg of
        GPIO_MAP \<Rightarrow>
          GPIOPinWrite (DIRECTION_PORT cfg) (HWDIRECTION_MASK cfg) (dir_outmap s ! unat bits) s
      | GPIO_SHIFT n \<Rightarrow>
          GPIOPinWrite (DIRECTION_PORT cfg) (HWDIRECTION_MASK cfg)
            (push_bit n (bits XOR dir_invert cfg)) s)"

text \<open>
  \<open>stepperPulseStart\<close> and \<open>stepperPulseStartDelayed\<close> with \<open>SPINDLE_SYNC_ENABLE\<close>
  undefined (its \<open>#define\<close> is commented out). The \<open>stepper_t\<close> is passed by pointer and
  written, so it is returned with the driver.
\<close>
definition stepperPulseStart :: "config \<Rightarrow> stepper_t \<Rightarrow> driver \<Rightarrow> stepper_t \<times> driver" where
  "stepperPulseStart cfg stepper s =
     (let (stepper1, s1) =
            (if new_block stepper
             then (stepper\<lparr>new_block := False\<rparr>, set_dir_outputs cfg (dir_outbits stepper) s)
             else (stepper, s))
      in if step_outbits stepper1 \<noteq> 0
         then (stepper1, TimerEnable (PULSE_TIMER_BASE cfg)
                           (set_step_outputs cfg (step_outbits stepper1) s1))
         else (stepper1, s1))"

definition stepperPulseStartDelayed :: "config \<Rightarrow> stepper_t \<Rightarrow> driver \<Rightarrow> stepper_t \<times> driver" where
  "stepperPulseStartDelayed cfg stepper s =
     (let (stepper1, s1) =
            (if new_block stepper
             then (stepper\<lparr>new_block := False\<rparr>, set_dir_outputs cfg (dir_outbits stepper) s)
             else (stepper, s))
      in if step_outbits stepper1 \<noteq> 0
         then (stepper1, TimerEnable (PULSE_TIMER_BASE cfg)
                           (s1\<lparr>next_step_outbits := step_outbits stepper1\<rparr>))
         else (stepper1, s1))"

definition stepper_pulse_isr :: "config \<Rightarrow> driver \<Rightarrow> driver" where
  "stepper_pulse_isr cfg s =
     set_step_outputs cfg 0 (TimerIntClear (PULSE_TIMER_BASE cfg) TIMER_TIMA_TIMEOUT s)"

definition stepper_pulse_isr_delayed :: "config \<Rightarrow> driver \<Rightarrow> driver" where
  "stepper_pulse_isr_delayed cfg s =
     (let iflags = TimerIntStatus (PULSE_TIMER_BASE cfg) s;
          s1 = TimerIntClear (PULSE_TIMER_BASE cfg) iflags s
      in set_step_outputs cfg
           (if iflags AND TIMER_TIMA_MATCH \<noteq> 0 then next_step_outbits s1 else 0) s1)"

text \<open>
  \<open>settings_changed\<close> installs the delayed pair of handlers when
  \<open>pulse_delay_microseconds\<close> is non-zero and the immediate pair otherwise.
\<close>
definition hal_stepper_pulse_start :: "config \<Rightarrow> stepper_t \<Rightarrow> driver \<Rightarrow> stepper_t \<times> driver" where
  "hal_stepper_pulse_start cfg =
     (if pulse_delay_microseconds cfg \<noteq> 0 then stepperPulseStartDelayed cfg
      else stepperPulseStart cfg)"

definition pulse_timer_isr :: "config \<Rightarrow> driver \<Rightarrow> driver" where
  "pulse_timer_isr cfg =
     (if pulse_delay_microseconds cfg \<noteq> 0 then stepper_pulse_isr_delayed cfg
      else stepper_pulse_isr cfg)"

section \<open>Limit and probe inputs (driver.c 425-480, 1296-1359)\<close>

text \<open>
  \<open>limitsGetState\<close>: the three bit-fields are assigned from the port, the remaining bits of
  the local keep whatever they held.
\<close>
definition limitsGetState :: "config \<Rightarrow> driver \<Rightarrow> axes_signals_t" where
  "limitsGetState cfg s =
     (let flags = GPIOPinRead (LIMIT_PORT cfg) (HWLIMIT_MASK cfg) s;
          signals = (uninit_signals s AND NOT 7)
                    OR (if flags AND X_LIMIT_PIN cfg \<noteq> 0 then 1 else 0)
                    OR (if flags AND Y_LIMIT_PIN cfg \<noteq> 0 then 2 else 0)
                    OR (if flags AND Z_LIMIT_PIN cfg \<noteq> 0 then 4 else 0)
      in if limits_invert cfg \<noteq> 0 then signals XOR limits_invert cfg else signals)"

definition probeGetState :: "config \<Rightarrow> driver \<Rightarrow> bool" where
  "probeGetState cfg s =
     ((GPIOPinRead (PROBE_PORT cfg) (PROBE_PIN cfg) s XOR probe_invert s) \<noteq> 0)"

definition software_debounce_isr :: "config \<Rightarrow> driver \<Rightarrow> driver" where
  "software_debounce_isr cfg s =
     (let s1 = TimerIntClear (DEBOUNCE_TIMER_BASE cfg) TIMER_TIMA_TIMEOUT s;
          state = limitsGetState cfg s1
      in if state \<noteq> 0 then limit_interrupt_callback state s1 else s1)"

definition limit_isr :: "config \<Rightarrow> driver \<Rightarrow> driver" where
  "limit_isr cfg s =
     (let iflags = GPIOIntStatus (LIMIT_PORT cfg) s;
          s1 = GPIOIntClear (LIMIT_PORT cfg) iflags s
      in if iflags AND ucast (HWLIMIT_MASK cfg) \<noteq> 0
         then limit_interrupt_callback (limitsGetState cfg s1) s1
         else if iflags AND ucast (PROBE_PIN cfg) \<noteq> 0
         then s1\<lparr>probeState := (probe_invert s1 \<noteq> 0)\<rparr>
         else s1)"

definition limit_isr_debounced :: "config \<Rightarrow> driver \<Rightarrow> driver" where
  "limit_isr_debounced cfg s =
     (let iflags = GPIOIntStatus (LIMIT_PORT cfg) s;
          s1 = GPIOIntClear (LIMIT_PORT cfg) iflags s
      in if iflags AND ucast (HWLIMIT_MASK cfg) \<noteq> 0
         then TimerEnable (DEBOUNCE_TIMER_BASE cfg)
                (TimerLoadSet (DEBOUNCE_TIMER_BASE cfg) 32000 s1)
         else if iflags AND ucast (PROBE_PIN cfg) \<noteq> 0
         then s1\<lparr>probeState := (probe_invert s1 \<noteq> 0)\<rparr>
         else s1)"

section \<open>Spindle (driver.c 484-580)\<close>

definition spindle_off :: "config \<Rightarrow> driver \<Rightarrow> driver" where
  "spindle_off cfg s =
     GPIOPinWrite (SPINDLE_ENABLE_PORT cfg) (SPINDLE_ENABLE_PIN cfg)
       (if spindle_invert_on cfg then SPINDLE_ENABLE_PIN cfg else 0) s"

definition spindle_on :: "config \<Rightarrow> driver \<Rightarrow> driver" where
  "spindle_on cfg s =
     GPIOPinWrite (SPINDLE_ENABLE_PORT cfg) (SPINDLE_ENABLE_PIN cfg)
       (if spindle_invert_on cfg then 0 else SPINDLE_ENABLE_PIN cfg) s"

definition SPINDLE_RAMP_STEP_INCR :: u32 where "SPINDLE_RAMP_STEP_INCR = 20"
definition SPINDLE_RAMP_STEP_TIME :: u32 where "SPINDLE_RAMP_STEP_TIME = 2"

text \<open>The \<open>PWM_RAMPED\<close> variant; it returns its argument.\<close>
definition spindle_set_speed_ramped :: "config \<Rightarrow> u32 \<Rightarrow> driver \<Rightarrow> u32 \<times> driver" where
  "spindle_set_speed_ramped cfg pwm_value s =
     (if pwm_value = pwm_off_value cfg
      then (pwm_value,
            SysTickEnable (s\<lparr>pwm_target := 0, pwm_step := - SPINDLE_RAMP_STEP_INCR,
                              ramp_delay_ms := 0, ms_cfg := SPINDLE_RAMP_STEP_TIME\<rparr>))
      else
        (let s1 = (if \<not> pwmEnabled s
                   then (let a = spindle_on cfg s;
                             b = a\<lparr>pwmEnabled := True, pwm_current := pwm_min_value cfg,
                                    ramp_delay_ms := 0\<rparr>;
                             c = TimerMatchSet (SPINDLE_PWM_TIMER_BASE cfg)
                                   (pwm_period cfg - pwm_current b + 15) b;
                             d = TimerLoadSet (SPINDLE_PWM_TIMER_BASE cfg) (pwm_period cfg) c
                         in TimerEnable (SPINDLE_PWM_TIMER_BASE cfg) d)
                   else s);
             s2 = s1\<lparr>pwm_target := pwm_value\<rparr>;
             s3 = s2\<lparr>pwm_step := (if sint (pwm_target s2) < sint (pwm_current s2)
                                      then - SPINDLE_RAMP_STEP_INCR else SPINDLE_RAMP_STEP_INCR),
                      ms_cfg := SPINDLE_RAMP_STEP_TIME\<rparr>
         in (pwm_value,
             SysTickEnable (TimerControlLevel (SPINDLE_PWM_TIMER_BASE cfg) False s3))))"

text \<open>The variant without \<open>PWM_RAMPED\<close>.\<close>
definition spindle_set_speed_direct :: "config \<Rightarrow> u32 \<Rightarrow> driver \<Rightarrow> driver" where
  "spindle_set_speed_direct cfg pwm_value s =
     (let tmr = SPINDLE_PWM_TIMER_BASE cfg in
      if pwm_value = pwm_off_value cfg
      then (let s1 = s\<lparr>pwmEnabled := False\<rparr>;
                s2 = (if disable_with_zero_speed cfg then spindle_off cfg s1 else s1)
            in if pwm_always_on cfg
               then (let a = TimerPrescaleMatchSet tmr (drop_bit 16 (pwm_off_value cfg)) s2;
                         b = TimerMatchSet tmr (pwm_off_value cfg AND 0xFFFF) a;
                         c = TimerControlLevel tmr (\<not> spindle_invert_pwm cfg) b
                     in TimerEnable tmr c)
               else (let pwm = pwm_period cfg + 20000;
                         a = TimerPrescaleSet tmr (drop_bit 16 pwm) s2;
                         b = TimerLoadSet tmr (pwm AND 0xFFFF) a;
                         c = (if \<not> pwmEnabled b then TimerEnable tmr b else b);
                         d = TimerControlLevel tmr (\<not> spindle_invert_pwm cfg) c
                     in TimerDisable tmr d))
      else (let s1 = TimerPrescaleMatchSet tmr (drop_bit 16 pwm_value) s;
                s2 = TimerMatchSet tmr (pwm_value AND 0xFFFF) s1
            in if \<not> pwmEnabled s2
               then (let a = spindle_on cfg s2;
                         b = a\<lparr>pwmEnabled := True\<rparr>;
                         c = TimerPrescaleSet tmr (drop_bit 16 (pwm_period cfg)) b;
                         d = TimerLoadSet tmr (pwm_period cfg AND 0xFFFF) c;
                         e = TimerControlLevel tmr (\<not> spindle_invert_pwm cfg) d
                     in TimerEnable tmr e)
               else s2))"

definition spindle_set_speed :: "config \<Rightarrow> u32 \<Rightarrow> driver \<Rightarrow> driver" where
  "spindle_set_speed cfg pwm_value s =
     (if PWM_RAMPED cfg then snd (spindle_set_speed_ramped cfg pwm_value s)
      else spindle_set_speed_direct cfg pwm_value s)"

section \<open>Tick scheduler (driver.c 160-178, 1402-1456)\<close>

text \<open>
  The body of \<open>if(++pwm_ramp.delay_ms == pwm_ramp.ms_cfg)\<close> in the ramped \<open>systick_isr\<close>, one
  step of the duty ramp, in the blocks of the source: the "stop?" block that disables the
  PWM output, the "decrease speed" branch, the increasing branch, and the step around them.
\<close>
definition ramp_stop :: "config \<Rightarrow> driver \<Rightarrow> driver" where
  "ramp_stop cfg s =
     (let tmr = SPINDLE_PWM_TIMER_BASE cfg;
          d1 = (if disable_with_zero_speed cfg then spindle_off cfg s else s);
          d2 = TimerLoadSet tmr (pwm_period cfg + 20000) d1;
          d3 = TimerDisable tmr d2;
          d4 = (if pwmEnabled d3 then TimerControlLevel tmr True d3 else d3)
      in d4\<lparr>pwmEnabled := False\<rparr>)"

definition ramp_down :: "config \<Rightarrow> driver \<Rightarrow> driver" where
  "ramp_down cfg s =
     (let c1 = (if sint (pwm_current s) < sint (pwm_target s)
                then s\<lparr>pwm_current := pwm_target s\<rparr> else s)
      in if pwm_current c1 = 0
         then ramp_stop cfg c1
         else TimerMatchSet (SPINDLE_PWM_TIMER_BASE cfg) (pwm_period cfg - pwm_current c1) c1)"

definition ramp_up :: "config \<Rightarrow> driver \<Rightarrow> driver" where
  "ramp_up cfg s =
     (let c1 = (if sint (pwm_target s) < sint (pwm_current s)
                then s\<lparr>pwm_current := pwm_target s\<rparr> else s)
      in TimerMatchSet (SPINDLE_PWM_TIMER_BASE cfg) (pwm_period cfg - pwm_current c1) c1)"

definition ramp_step :: "config \<Rightarrow> driver \<Rightarrow> driver" where
  "ramp_step cfg s =
     (let a = s\<lparr>ramp_delay_ms := 0\<rparr>;
          b = a\<lparr>pwm_current := pwm_current a + pwm_step a\<rparr>;
          c = (if sint (pwm_step b) < 0 then ramp_down cfg b else ramp_up cfg b)
      in if pwm_current c = pwm_target c then c\<lparr>ms_cfg := 0\<rparr> else c)"

text \<open>The \<open>delay\<close> part of the ramped handler: count down, fire the callback at zero.\<close>
definition delay_tick :: "driver \<Rightarrow> driver" where
  "delay_tick s =
     (if delay_ms s \<noteq> 0
      then (let a = s\<lparr>delay_ms := delay_ms s - 1\<rparr>
            in if delay_ms a = 0
               then (case delay_callback a of
                       Some cb \<Rightarrow> (invoke cb a)\<lparr>delay_callback := None\<rparr>
                     | None \<Rightarrow> a)
               else a)
      else s)"

text \<open>The \<open>pwm_ramp\<close> part of the ramped handler: the cadence counter and, when it is due, a step.\<close>
definition ramp_tick :: "config \<Rightarrow> driver \<Rightarrow> driver" where
  "ramp_tick cfg s =
     (if ms_cfg s \<noteq> 0
      then (let a = s\<lparr>ramp_delay_ms := ramp_delay_ms s + 1\<rparr>
            in if ramp_delay_ms a = ms_cfg a then ramp_step cfg a else a)
      else s)"

definition systick_isr_ramped :: "config \<Rightarrow> driver \<Rightarrow> driver" where
  "systick_isr_ramped cfg s =
     (let s1 = ramp_tick cfg s;
          s2 = delay_tick s1
      in if \<not> (delay_ms s2 \<noteq> 0 \<or> ms_cfg s2 \<noteq> 0) then SysTickDisable s2 else s2)"

definition systick_isr_plain :: "driver \<Rightarrow> driver" where
  "systick_isr_plain s =
     (let a = s\<lparr>delay_ms := delay_ms s - 1\<rparr>
      in if delay_ms a = 0
         then (let b = SysTickDisable a
               in case delay_callback b of
                    Some cb \<Rightarrow> (invoke cb b)\<lparr>delay_callback := None\<rparr>
                  | None \<Rightarrow> b)
         else a)"

definition systick_isr :: "config \<Rightarrow> driver \<Rightarrow> driver" where
  "systick_isr cfg s = (if PWM_RAMPED cfg then systick_isr_ramped cfg s else systick_isr_plain s)"

text \<open>
  The busy-wait \<open>while(delay.ms);\<close> of \<open>driver_delay_ms\<close>. Nothing in the loop writes
  \<open>delay.ms\<close>; the loop ends when the tick interrupt, which preempts it once per
  millisecond, has counted it down. Each iteration here is one tick.
\<close>
lemma delay_ms_emit: "delay_ms (emit c s) = delay_ms s"
  by (simp add: emit_def)

lemma delay_ms_ramp_step: "delay_ms (ramp_step cfg s) = delay_ms s"
  by (simp add: ramp_step_def ramp_down_def ramp_up_def ramp_stop_def Let_def spindle_off_def
      GPIOPinWrite_def TimerLoadSet_def
      TimerDisable_def TimerControlLevel_def TimerMatchSet_def delay_ms_emit)

lemma delay_ms_ramp_tick: "delay_ms (ramp_tick cfg s) = delay_ms s"
  by (simp add: ramp_tick_def Let_def delay_ms_ramp_step)

lemma delay_ms_delay_tick: "delay_ms s \<noteq> 0 \<Longrightarrow> delay_ms (delay_tick s) = delay_ms s - 1"
  by (simp add: delay_tick_def Let_def invoke_def delay_ms_emit split: option.split)

lemma delay_ms_systick_isr: "delay_ms s \<noteq> 0 \<Longrightarrow> delay_ms (systick_isr cfg s) = delay_ms s - 1"
  by (simp add: systick_isr_def systick_isr_ramped_def systick_isr_plain_def Let_def
      delay_ms_delay_tick delay_ms_ramp_tick SysTickDisable_def invoke_def delay_ms_emit
      split: option.split)

function wait_delay :: "config \<Rightarrow> driver \<Rightarrow> driver" where
  "wait_delay cfg s = (if delay_ms s = 0 then s else wait_delay cfg (systick_isr cfg s))"
  by pat_completeness auto
termination
proof (relation "measure (\<lambda>(cfg, s). unat (delay_ms s))")
  show "wf (measure (\<lambda>(cfg, s). unat (delay_ms s)))" by simp
next
  fix cfg :: config and s :: driver
  assume nz: "delay_ms s \<noteq> 0"
  then have "unat (delay_ms s - 1) < unat (delay_ms s)"
    by (simp add: unat_minus_one unat_gt_0)
  with nz show "((cfg, systick_isr cfg s), (cfg, s)) \<in> measure (\<lambda>(cfg, s). unat (delay_ms s))"
    by (simp add: delay_ms_systick_isr)
qed

declare wait_delay.simps [simp del]

definition driver_delay_ms :: "config \<Rightarrow> u32 \<Rightarrow> callback option \<Rightarrow> driver \<Rightarrow> driver" where
  "driver_delay_ms cfg ms callback s =
     (let s0 = (case delay_callback s of Some cb \<Rightarrow> invoke cb s | None \<Rightarrow> s)
      in if ms \<noteq> 0
         then (let s1 = SysTickEnable (s0\<lparr>delay_ms := ms\<rparr>);
                   s2 = s1\<lparr>delay_callback := callback\<rparr>
               in if callback = None then wait_delay cfg s2 else s2)
         else (let s1 = (if delay_ms s0 \<noteq> 0 then s0\<lparr>delay_callback := None, delay_ms := 1\<rparr> else s0)
               in case callback of Some cb \<Rightarrow> invoke cb s1 | None \<Rightarrow> s1))"

section \<open>Environment: commands, interrupts and time\<close>

text \<open>
  What the upstream executor and the hardware do to the driver between its functions.
  A pulse event is either a step command handed to \<open>hal.stepper_pulse_start\<close> or the
  pulse timer raising its interrupt with the given status flags.
\<close>
datatype pulse_event = StartPulse stepper_t | PulseTimerIrq u32

definition timer_irq :: "u32 \<Rightarrow> u32 \<Rightarrow> driver \<Rightarrow> driver" where
  "timer_irq base flags s = s\<lparr>timer_mis := (timer_mis s)(base := timer_mis s base OR flags)\<rparr>"

fun pulse_step :: "config \<Rightarrow> pulse_event \<Rightarrow> driver \<Rightarrow> driver" where
  "pulse_step cfg (StartPulse st) s = snd (hal_stepper_pulse_start cfg st s)"
| "pulse_step cfg (PulseTimerIrq flags) s =
     pulse_timer_isr cfg (timer_irq (PULSE_TIMER_BASE cfg) flags s)"

fun run_pulses :: "config \<Rightarrow> pulse_event list \<Rightarrow> driver \<Rightarrow> driver" where
  "run_pulses cfg [] s = s"
| "run_pulses cfg (e # es) s = run_pulses cfg es (pulse_step cfg e s)"

fun within_block :: "pulse_event \<Rightarrow> bool" where
  "within_block (StartPulse st) = (\<not> new_block st)"
| "within_block (PulseTimerIrq flags) = True"

text \<open>The byte each of the two output functions hands to \<open>GPIOPinWrite\<close>.\<close>
definition dir_value :: "config \<Rightarrow> driver \<Rightarrow> axes_signals_t \<Rightarrow> u8" where
  "dir_value cfg s bits =
     (case DIRECTION_OUTMODE cfg of
        GPIO_MAP \<Rightarrow> dir_outmap s ! unat bits
      | GPIO_SHIFT n \<Rightarrow> push_bit n (bits XOR dir_invert cfg))"

definition step_value :: "config \<Rightarrow> driver \<Rightarrow> axes_signals_t \<Rightarrow> u8" where
  "step_value cfg s bits =
     (case STEP_OUTMODE cfg of
        GPIO_MAP \<Rightarrow> step_outmap s ! unat bits
      | GPIO_SHIFT n \<Rightarrow> push_bit n (bits XOR step_invert cfg))"

text \<open>The step pins as they stand.\<close>
definition step_pins :: "config \<Rightarrow> driver \<Rightarrow> u8" where
  "step_pins cfg s = gpio_data s (STEP_PORT cfg) AND HWSTEP_MASK cfg"

text \<open>The direction pins as they stand, and the direction writes a trace holds.\<close>
definition dir_pins :: "config \<Rightarrow> driver \<Rightarrow> u8" where
  "dir_pins cfg s = gpio_data s (DIRECTION_PORT cfg) AND HWDIRECTION_MASK cfg"

fun is_dir_write :: "config \<Rightarrow> call \<Rightarrow> bool" where
  "is_dir_write cfg (E_GPIOPinWrite port pins val) =
     (port = DIRECTION_PORT cfg \<and> pins = HWDIRECTION_MASK cfg)"
| "is_dir_write cfg other = False"

definition dir_writes :: "config \<Rightarrow> driver \<Rightarrow> call list" where
  "dir_writes cfg s = filter (is_dir_write cfg) (trace s)"

text \<open>
  A board on which the step pins and the direction pins are different pins: on
  different ports, or on one port under masks that share no bit.
\<close>
definition separate_pins :: "config \<Rightarrow> bool" where
  "separate_pins cfg =
     (if STEP_PORT cfg = DIRECTION_PORT cfg
      then HWSTEP_MASK cfg AND HWDIRECTION_MASK cfg = 0 \<and> HWSTEP_MASK cfg \<noteq> HWDIRECTION_MASK cfg
      else True)"

text \<open>
  A GPIO port latching edge flags in its masked interrupt status, and the pins of a port
  taking new levels.
\<close>
definition gpio_irq :: "u32 \<Rightarrow> u32 \<Rightarrow> driver \<Rightarrow> driver" where
  "gpio_irq port flags s = s\<lparr>gpio_mis := (gpio_mis s)(port := gpio_mis s port OR flags)\<rparr>"

definition gpio_levels :: "u32 \<Rightarrow> u8 \<Rightarrow> driver \<Rightarrow> driver" where
  "gpio_levels port levels s = s\<lparr>gpio_data := (gpio_data s)(port := levels)\<rparr>"

text \<open>
  A raw edge on the limit port with software debounce on (\<open>driver_setup\<close> then registers
  \<open>limit_isr_debounced\<close>): the pins take their new levels, the flags are latched, the
  handler runs.
\<close>
definition limit_edge :: "config \<Rightarrow> u8 \<Rightarrow> u32 \<Rightarrow> driver \<Rightarrow> driver" where
  "limit_edge cfg levels flags s =
     limit_isr_debounced cfg (gpio_irq (LIMIT_PORT cfg) flags (gpio_levels (LIMIT_PORT cfg) levels s))"

text \<open>
  \<open>n\<close> microseconds passing for the debounce timer, which \<open>driver_setup\<close> configures as a
  one-shot at one count per microsecond. While enabled it counts down; when the count
  runs out within the \<open>n\<close> microseconds the timer stops, reloads, raises its time-out
  flag, and \<open>software_debounce_isr\<close> runs.
\<close>
definition elapse :: "config \<Rightarrow> nat \<Rightarrow> driver \<Rightarrow> driver" where
  "elapse cfg n s =
     (let tmr = DEBOUNCE_TIMER_BASE cfg in
      if timer_enabled s tmr
      then (if unat (timer_count s tmr) \<le> n
            then software_debounce_isr cfg
                   (timer_irq tmr TIMER_TIMA_TIMEOUT
                      (s\<lparr>timer_enabled := (timer_enabled s)(tmr := False),
                         timer_count := (timer_count s)(tmr := timer_load s tmr)\<rparr>))
            else s\<lparr>timer_count := (timer_count s)(tmr := timer_count s tmr - of_nat n)\<rparr>)
      else s)"

text \<open>Further edges of a burst: each comes \<open>gap\<close> microseconds after the one before.\<close>
fun burst :: "config \<Rightarrow> (nat \<times> u8 \<times> u32) list \<Rightarrow> driver \<Rightarrow> driver" where
  "burst cfg [] s = s"
| "burst cfg ((gap, levels, flags) # es) s =
     burst cfg es (limit_edge cfg levels flags (elapse cfg gap s))"

fun is_limit_notification :: "call \<Rightarrow> bool" where
  "is_limit_notification (E_limit_interrupt_callback state) = True"
| "is_limit_notification other = False"

definition limit_notifications :: "driver \<Rightarrow> call list" where
  "limit_notifications s = filter is_limit_notification (trace s)"

text \<open>The invocations of the delay callback \<open>cb\<close> that a trace holds.\<close>
definition callback_count :: "callback \<Rightarrow> driver \<Rightarrow> nat" where
  "callback_count cb s = length (filter (\<lambda>c. c = E_callback cb) (trace s))"

text \<open>\<open>n\<close> ticks of the SysTick interrupt.\<close>
fun ticks :: "config \<Rightarrow> nat \<Rightarrow> driver \<Rightarrow> driver" where
  "ticks cfg 0 s = s"
| "ticks cfg (Suc n) s = ticks cfg n (systick_isr cfg s)"

text \<open>
  The state \<open>driver_delay_ms\<close> has built when it reaches the test of \<open>callback\<close>, for
  \<open>ms > 0\<close>: a pending callback invoked, the countdown loaded, SysTick enabled, the new
  callback stored.
\<close>
definition delay_armed :: "u32 \<Rightarrow> callback option \<Rightarrow> driver \<Rightarrow> driver" where
  "delay_armed ms callback s =
     (SysTickEnable
        ((case delay_callback s of Some cb \<Rightarrow> invoke cb s | None \<Rightarrow> s)\<lparr>delay_ms := ms\<rparr>))
     \<lparr>delay_callback := callback\<rparr>"

text \<open>
  The fields of \<open>pwm_ramp\<close> as a tuple, and the value a ramp step leaves in \<open>pwm_current\<close>:
  the sum \<open>pwm_current + pwm_step\<close>, clamped at the target from the side the step comes from.
\<close>
definition ramp_of :: "driver \<Rightarrow> u32 \<times> u32 \<times> u32 \<times> u32 \<times> u32" where
  "ramp_of s = (ms_cfg s, ramp_delay_ms s, pwm_current s, pwm_target s, pwm_step s)"

definition ramp_clamp :: "u32 \<Rightarrow> u32 \<Rightarrow> u32 \<Rightarrow> u32" where
  "ramp_clamp cur tgt step =
     (let c = cur + step
      in if sint step < 0 then (if sint c < sint tgt then tgt else c)
         else (if sint tgt < sint c then tgt else c))"

text \<open>
  The duty a ramp from \<open>c0\<close> towards \<open>t\<close> in steps of 20 has after \<open>k\<close> steps, and the
  number of steps \<open>ceil(|t - c0| / 20)\<close>.
\<close>
definition ramp_value :: "int \<Rightarrow> int \<Rightarrow> nat \<Rightarrow> int" where
  "ramp_value c0 t k = (if t < c0 then max t (c0 - 20 * int k) else min t (c0 + 20 * int k))"

definition ramp_ticks :: "int \<Rightarrow> int \<Rightarrow> nat" where
  "ramp_ticks c0 t = nat ((\<bar>t - c0\<bar> + 19) div 20)"

text \<open>
  A ramp that has just been started: the cadence is set and its counter is at zero or,
  when a ramp was under way, at one; the step points from the current duty towards the
  target; and both duties are far enough from the ends of the 32-bit signed range for
  \<open>pwm_current + pwm_step\<close> not to wrap.
\<close>
definition ramp_started :: "driver \<Rightarrow> bool" where
  "ramp_started s =
     (ms_cfg s = 2 \<and> (ramp_delay_ms s = 0 \<or> ramp_delay_ms s = 1)
      \<and> (if pwm_step s = 20 then sint (pwm_current s) \<le> sint (pwm_target s)
          else pwm_step s = - 20 \<and> sint (pwm_target s) \<le> sint (pwm_current s))
      \<and> - 2147483628 \<le> sint (pwm_current s) \<and> sint (pwm_current s) \<le> 2147483627
      \<and> - 2147483628 \<le> sint (pwm_target s) \<and> sint (pwm_target s) \<le> 2147483627)"

text \<open>
  The ramp started in \<open>s\<close> stands, in \<open>sk\<close>, after its \<open>k\<close>-th step with the cadence counter
  at zero.
\<close>
definition ramp_at :: "driver \<Rightarrow> driver \<Rightarrow> nat \<Rightarrow> bool" where
  "ramp_at s sk k =
     (ms_cfg sk =
        (if 1 \<le> k \<and> ramp_value (sint (pwm_current s)) (sint (pwm_target s)) k = sint (pwm_target s)
         then 0 else 2)
      \<and> ramp_delay_ms sk = 0
      \<and> sint (pwm_current sk) = ramp_value (sint (pwm_current s)) (sint (pwm_target s)) k
      \<and> pwm_target sk = pwm_target s
      \<and> pwm_step sk = pwm_step s)"

text \<open>
  A further edge of a burst comes less than 32 ms after the one before and raises a limit
  flag. The debounce timer is armed when it is enabled with the full window left.
\<close>
fun burst_ok :: "config \<Rightarrow> nat \<times> u8 \<times> u32 \<Rightarrow> bool" where
  "burst_ok cfg (gap, levels, flags) = (gap < 32000 \<and> flags AND ucast (HWLIMIT_MASK cfg) \<noteq> 0)"

definition debounce_armed :: "config \<Rightarrow> driver \<Rightarrow> bool" where
  "debounce_armed cfg s =
     (timer_enabled s (DEBOUNCE_TIMER_BASE cfg) \<and> timer_count s (DEBOUNCE_TIMER_BASE cfg) = 32000)"

text \<open>A concrete board, settings and initial state, for evaluating the functions.\<close>
definition cfg0 :: config where
  "cfg0 = \<lparr>STEP_PORT = 0x40007000, HWSTEP_MASK = 0x07, STEP_OUTMODE = GPIO_SHIFT 0,
           DIRECTION_PORT = 0x40024000, HWDIRECTION_MASK = 0x0E, DIRECTION_OUTMODE = GPIO_SHIFT 1,
           LIMIT_PORT = 0x40006000, HWLIMIT_MASK = 0x70,
           X_LIMIT_PIN = 0x10, Y_LIMIT_PIN = 0x20, Z_LIMIT_PIN = 0x40,
           PROBE_PORT = 0x40006000, PROBE_PIN = 0x80,
           SPINDLE_ENABLE_PORT = 0x40025000, SPINDLE_ENABLE_PIN = 0x02,
           PULSE_TIMER_BASE = 0x40032000, DEBOUNCE_TIMER_BASE = 0x40033000,
           SPINDLE_PWM_TIMER_BASE = 0x40034000, PWM_RAMPED = True,
           step_invert = 0, dir_invert = 0, limits_invert = 0,
           spindle_invert_on = False, spindle_invert_pwm = False,
           disable_with_zero_speed = True, pulse_delay_microseconds = 0,
           pwm_period = 16000, pwm_off_value = 0, pwm_min_value = 100, pwm_always_on = False\<rparr>"

definition s0 :: driver where
  "s0 = \<lparr>pwmEnabled = False, probeState = False, next_step_outbits = 0,
         delay_ms = 0, delay_callback = None, probe_invert = 0,
         step_outmap = [], dir_outmap = [],
         ms_cfg = 0, ramp_delay_ms = 0, pwm_current = 0, pwm_target = 0, pwm_step = 0,
         uninit_signals = 0,
         gpio_data = (\<lambda>p. 0), gpio_mis = (\<lambda>p. 0),
         timer_enabled = (\<lambda>b. False), timer_load = (\<lambda>b. 0), timer_count = (\<lambda>b. 0),
         timer_match = (\<lambda>b. 0), timer_prescale = (\<lambda>b. 0), timer_prescale_match = (\<lambda>b. 0),
         timer_level = (\<lambda>b. False), timer_mis = (\<lambda>b. 0),
         systick_enabled = False, int_master = True, mem = (\<lambda>a. 0), trace = []\<rparr>"

definition st5 :: stepper_t where
  "st5 = \<lparr>new_block = False, dir_outbits = 0, step_outbits = 5\<rparr>"

text \<open>The state without the log of calls, and the calls made between two states.\<close>
definition hw_state :: "driver \<Rightarrow> driver" where
  "hw_state s = s\<lparr>trace := []\<rparr>"

definition new_calls :: "driver \<Rightarrow> driver \<Rightarrow> call list" where
  "new_calls s s' = drop (length (trace s)) (trace s')"

text \<open>
  The probe pin, configured for a rising edge (\<open>probe_invert = 0\<close>), goes high and the
  port interrupt runs \<open>limit_isr\<close>.
\<close>
definition probe_edge_state :: driver where
  "probe_edge_state =
     limit_isr cfg0 (gpio_irq (LIMIT_PORT cfg0) 0x80 (gpio_levels (PROBE_PORT cfg0) 0x80 s0))"

text \<open>A state one tick before a pending delay with a callback expires.\<close>
definition s_last_tick :: driver where
  "s_last_tick = s0\<lparr>delay_ms := 1, delay_callback := Some 7, systick_enabled := True\<rparr>"

text \<open>From rest, a speed of 1000 is requested.\<close>
definition ramp_to_1000 :: driver where
  "ramp_to_1000 = snd (spindle_set_speed_ramped cfg0 1000 s0)"

text \<open>
  The X limit pin closes at time 0 and bounces once, 5 ms later; the states at 0 ms,
  5 ms, 32 ms and 37 ms after the first edge.
\<close>
definition debounce_t0 :: driver where
  "debounce_t0 = limit_edge cfg0 0x10 0x10 s0"

definition debounce_t5 :: driver where
  "debounce_t5 = limit_edge cfg0 0x10 0x10 (elapse cfg0 5000 debounce_t0)"

definition debounce_t32 :: driver where
  "debounce_t32 = elapse cfg0 27000 debounce_t5"

definition debounce_t37 :: driver where
  "debounce_t37 = elapse cfg0 5000 debounce_t32"

section \<open>Properties\<close>

lemmas hw_defs = emit_def GPIOPinWrite_def GPIOPinRead_def GPIOIntStatus_def GPIOIntClear_def
  TimerEnable_def TimerDisable_def TimerLoadSet_def TimerMatchSet_def TimerPrescaleSet_def
  TimerPrescaleMatchSet_def TimerControlLevel_def TimerIntStatus_def TimerIntClear_def
  SysTickEnable_def SysTickDisable_def IntMasterDisable_def IntMasterEnable_def invoke_def
  limit_interrupt_callback_def

subsection \<open>Atomic helpers\<close>

text \<open>
  C10. \<open>bitsSetAtomic\<close> leaves in \<open>*ptr\<close> exactly the old bits and the bits of the mask,
  and touches no other cell; \<open>bitsClearAtomic\<close> leaves exactly the old bits that are not
  in the mask, touches no other cell, and returns the value \<open>*ptr\<close> held before;
  \<open>valueSetAtomic\<close> stores the value and returns the value \<open>*ptr\<close> held before. Each
  makes its access between \<open>IntMasterDisable\<close> and \<open>IntMasterEnable\<close>.
\<close>
theorem atomic_helpers_exact:
  "mem (bitsSetAtomic ptr bits s) = (mem s)(ptr := mem s ptr OR bits)
   \<and> (\<forall>n. bit (mem (bitsSetAtomic ptr bits s) ptr) n = (bit (mem s ptr) n \<or> bit bits n))
   \<and> fst (bitsClearAtomic ptr bits s) = mem s ptr
   \<and> mem (snd (bitsClearAtomic ptr bits s)) = (mem s)(ptr := mem s ptr AND NOT bits)
   \<and> (\<forall>n. bit (mem (snd (bitsClearAtomic ptr bits s)) ptr) n = (bit (mem s ptr) n \<and> \<not> bit bits n))
   \<and> fst (valueSetAtomic ptr v s) = mem s ptr
   \<and> mem (snd (valueSetAtomic ptr v s)) = (mem s)(ptr := v)
   \<and> new_calls s (bitsSetAtomic ptr bits s) = [E_IntMasterDisable, E_IntMasterEnable]
   \<and> new_calls s (snd (bitsClearAtomic ptr bits s)) = [E_IntMasterDisable, E_IntMasterEnable]
   \<and> new_calls s (snd (valueSetAtomic ptr v s)) = [E_IntMasterDisable, E_IntMasterEnable]"
  by (auto simp add: bitsSetAtomic_def bitsClearAtomic_def valueSetAtomic_def Let_def hw_defs
      new_calls_def bit_or_iff bit_and_iff bit_not_iff dest: bit_imp_le_length)

subsection \<open>Pulse generator\<close>


lemma set_dir_outputs_eq:
  "set_dir_outputs cfg bits s =
     GPIOPinWrite (DIRECTION_PORT cfg) (HWDIRECTION_MASK cfg) (dir_value cfg s bits) s"
  by (simp add: set_dir_outputs_def dir_value_def split: outmode.split)

lemma set_step_outputs_eq:
  "set_step_outputs cfg bits s =
     GPIOPinWrite (STEP_PORT cfg) (HWSTEP_MASK cfg) (step_value cfg s bits) s"
  by (simp add: set_step_outputs_def step_value_def split: outmode.split)

lemma masked_write_other:
  fixes x :: "'a::len word"
  assumes "m1 AND m2 = 0"
  shows "((x AND NOT m1) OR (v AND m1)) AND m2 = x AND m2"
proof (rule bit_word_eqI)
  fix n
  assume len: "n < LENGTH('a)"
  from assms have "bit (m1 AND m2) n = bit (0 :: 'a word) n"
    by simp
  then have "\<not> (bit m1 n \<and> bit m2 n)"
    by (simp add: bit_and_iff)
  with len show "bit (((x AND NOT m1) OR (v AND m1)) AND m2) n = bit (x AND m2) n"
    by (auto simp add: bit_and_iff bit_or_iff bit_not_iff)
qed

lemma dir_pins_step_write:
  "separate_pins cfg \<Longrightarrow>
   dir_pins cfg (GPIOPinWrite (STEP_PORT cfg) (HWSTEP_MASK cfg) v s) = dir_pins cfg s"
  by (auto simp add: dir_pins_def separate_pins_def hw_defs masked_write_other split: if_splits)

lemma dir_writes_step_write:
  "separate_pins cfg \<Longrightarrow>
   dir_writes cfg (GPIOPinWrite (STEP_PORT cfg) (HWSTEP_MASK cfg) v s) = dir_writes cfg s"
  by (auto simp add: dir_writes_def separate_pins_def hw_defs split: if_splits)

lemma dir_pins_dir_write:
  "dir_pins cfg (GPIOPinWrite (DIRECTION_PORT cfg) (HWDIRECTION_MASK cfg) v s) =
     v AND HWDIRECTION_MASK cfg"
  by (simp add: dir_pins_def hw_defs word_bw_assocs word_ao_dist)

lemma dir_writes_dir_write:
  "dir_writes cfg (GPIOPinWrite (DIRECTION_PORT cfg) (HWDIRECTION_MASK cfg) v s) =
     dir_writes cfg s @ [E_GPIOPinWrite (DIRECTION_PORT cfg) (HWDIRECTION_MASK cfg) v]"
  by (simp add: dir_writes_def hw_defs)

lemma dir_frame [simp]:
  "dir_pins cfg (TimerEnable b s) = dir_pins cfg s"
  "dir_writes cfg (TimerEnable b s) = dir_writes cfg s"
  "dir_pins cfg (TimerIntClear b f s) = dir_pins cfg s"
  "dir_writes cfg (TimerIntClear b f s) = dir_writes cfg s"
  "dir_pins cfg (timer_irq b f s) = dir_pins cfg s"
  "dir_writes cfg (timer_irq b f s) = dir_writes cfg s"
  "dir_pins cfg (s\<lparr>next_step_outbits := x\<rparr>) = dir_pins cfg s"
  "dir_writes cfg (s\<lparr>next_step_outbits := x\<rparr>) = dir_writes cfg s"
  by (simp_all add: dir_pins_def dir_writes_def hw_defs timer_irq_def)

lemma dir_value_frame [simp]:
  "dir_value cfg (GPIOPinWrite p m v s) bits = dir_value cfg s bits"
  by (simp add: dir_value_def hw_defs split: outmode.split)

lemma start_dir_pins:
  assumes "separate_pins cfg"
  shows "dir_pins cfg (snd (stepperPulseStart cfg st s)) =
           (if new_block st then dir_value cfg s (dir_outbits st) AND HWDIRECTION_MASK cfg
            else dir_pins cfg s)"
    and "dir_pins cfg (snd (stepperPulseStartDelayed cfg st s)) =
           (if new_block st then dir_value cfg s (dir_outbits st) AND HWDIRECTION_MASK cfg
            else dir_pins cfg s)"
  using assms
  by (simp_all add: stepperPulseStart_def stepperPulseStartDelayed_def set_dir_outputs_eq
      set_step_outputs_eq dir_pins_step_write dir_pins_dir_write)

lemma start_dir_writes:
  assumes "separate_pins cfg"
  shows "dir_writes cfg (snd (stepperPulseStart cfg st s)) =
           dir_writes cfg s @
           (if new_block st
            then [E_GPIOPinWrite (DIRECTION_PORT cfg) (HWDIRECTION_MASK cfg)
                    (dir_value cfg s (dir_outbits st))]
            else [])"
    and "dir_writes cfg (snd (stepperPulseStartDelayed cfg st s)) =
           dir_writes cfg s @
           (if new_block st
            then [E_GPIOPinWrite (DIRECTION_PORT cfg) (HWDIRECTION_MASK cfg)
                    (dir_value cfg s (dir_outbits st))]
            else [])"
  using assms
  by (simp_all add: stepperPulseStart_def stepperPulseStartDelayed_def set_dir_outputs_eq
      set_step_outputs_eq dir_writes_step_write dir_writes_dir_write)

lemma start_clears_new_block:
  "\<not> new_block (fst (stepperPulseStart cfg st s))"
  "\<not> new_block (fst (stepperPulseStartDelayed cfg st s))"
  by (simp_all add: stepperPulseStart_def stepperPulseStartDelayed_def)

lemma pulse_isr_dir:
  assumes "separate_pins cfg"
  shows "dir_pins cfg (pulse_timer_isr cfg s) = dir_pins cfg s"
    and "dir_writes cfg (pulse_timer_isr cfg s) = dir_writes cfg s"
  using assms
  by (simp_all add: pulse_timer_isr_def stepper_pulse_isr_def stepper_pulse_isr_delayed_def
      Let_def set_step_outputs_eq dir_pins_step_write dir_writes_step_write)

lemma pulse_step_dir:
  assumes "separate_pins cfg" and "within_block e"
  shows "dir_pins cfg (pulse_step cfg e s) = dir_pins cfg s
         \<and> dir_writes cfg (pulse_step cfg e s) = dir_writes cfg s"
proof (cases e)
  case (StartPulse st)
  with assms show ?thesis
    by (simp add: hal_stepper_pulse_start_def start_dir_pins start_dir_writes)
next
  case (PulseTimerIrq flags)
  with assms show ?thesis
    by (simp add: pulse_isr_dir)
qed

lemma run_pulses_dir:
  assumes "separate_pins cfg" and "list_all within_block evs"
  shows "dir_pins cfg (run_pulses cfg evs s) = dir_pins cfg s
         \<and> dir_writes cfg (run_pulses cfg evs s) = dir_writes cfg s"
  using assms(2)
proof (induction evs arbitrary: s)
  case Nil
  show ?case by simp
next
  case (Cons e es)
  then have e: "within_block e" and es: "list_all within_block es"
    by simp_all
  from Cons.IH [OF es, of "pulse_step cfg e s"] pulse_step_dir [OF assms(1) e, of s]
  show ?case by simp
qed

text \<open>
  C1. On a board whose step and direction pins are separate, either start function
  writes the direction outputs exactly when \<open>new_block\<close> is set: the direction writes in
  the trace grow by the one \<open>set_dir_outputs\<close> write of the command's \<open>dir_outbits\<close> if the
  flag is set and by nothing otherwise, and the direction pins take that value or stay as
  they were. The returned command has the flag cleared, so handing it in again writes
  no direction. Any run of commands without \<open>new_block\<close>, with pulse-timer interrupts in
  between, leaves the direction pins and the direction writes as they were.
\<close>
theorem direction_written_iff_new_block:
  assumes "separate_pins cfg" and "list_all within_block evs"
  shows "dir_writes cfg (snd (stepperPulseStart cfg st s)) =
           dir_writes cfg s @
           (if new_block st
            then [E_GPIOPinWrite (DIRECTION_PORT cfg) (HWDIRECTION_MASK cfg)
                    (dir_value cfg s (dir_outbits st))]
            else [])
       \<and> dir_writes cfg (snd (stepperPulseStartDelayed cfg st s)) =
           dir_writes cfg s @
           (if new_block st
            then [E_GPIOPinWrite (DIRECTION_PORT cfg) (HWDIRECTION_MASK cfg)
                    (dir_value cfg s (dir_outbits st))]
            else [])
       \<and> dir_pins cfg (snd (stepperPulseStart cfg st s)) =
           (if new_block st then dir_value cfg s (dir_outbits st) AND HWDIRECTION_MASK cfg
            else dir_pins cfg s)
       \<and> dir_pins cfg (snd (stepperPulseStartDelayed cfg st s)) =
           (if new_block st then dir_value cfg s (dir_outbits st) AND HWDIRECTION_MASK cfg
            else dir_pins cfg s)
       \<and> \<not> new_block (fst (stepperPulseStart cfg st s))
       \<and> \<not> new_block (fst (stepperPulseStartDelayed cfg st s))
       \<and> dir_writes cfg (snd (stepperPulseStart cfg (fst (stepperPulseStart cfg st s)) s')) =
           dir_writes cfg s'
       \<and> dir_writes cfg (snd (stepperPulseStartDelayed cfg (fst (stepperPulseStartDelayed cfg st s)) s')) =
           dir_writes cfg s'
       \<and> dir_writes cfg (run_pulses cfg evs s) = dir_writes cfg s
       \<and> dir_pins cfg (run_pulses cfg evs s) = dir_pins cfg s"
  using assms
  by (simp add: start_dir_writes start_dir_pins start_clears_new_block run_pulses_dir)

theorem direction_written_iff_new_block_witness:
  "separate_pins cfg0
   \<and> list_all within_block
        [StartPulse \<lparr>new_block = False, dir_outbits = 5, step_outbits = 1\<rparr>, PulseTimerIrq 1,
         StartPulse \<lparr>new_block = False, dir_outbits = 2, step_outbits = 0\<rparr>]
   \<and> dir_writes cfg0
        (snd (stepperPulseStart cfg0 \<lparr>new_block = True, dir_outbits = 2, step_outbits = 1\<rparr> s0)) =
       [E_GPIOPinWrite 0x40024000 0x0E 4]
   \<and> dir_pins cfg0
        (snd (stepperPulseStart cfg0 \<lparr>new_block = True, dir_outbits = 2, step_outbits = 1\<rparr> s0)) = 4
   \<and> dir_writes cfg0
        (run_pulses cfg0
           [StartPulse \<lparr>new_block = False, dir_outbits = 5, step_outbits = 1\<rparr>, PulseTimerIrq 1,
            StartPulse \<lparr>new_block = False, dir_outbits = 2, step_outbits = 0\<rparr>] s0) = []
   \<and> dir_pins cfg0
        (run_pulses cfg0
           [StartPulse \<lparr>new_block = False, dir_outbits = 5, step_outbits = 1\<rparr>, PulseTimerIrq 1,
            StartPulse \<lparr>new_block = False, dir_outbits = 2, step_outbits = 0\<rparr>] s0) = 0"
proof -
  have h1: "separate_pins cfg0"
    by (simp add: separate_pins_def cfg0_def)
  have h2: "list_all within_block
        [StartPulse \<lparr>new_block = False, dir_outbits = 5, step_outbits = 1\<rparr>, PulseTimerIrq 1,
         StartPulse \<lparr>new_block = False, dir_outbits = 2, step_outbits = 0\<rparr>]"
    by simp
  have d: "dir_value cfg0 s0 2 = 4"
    by (simp add: dir_value_def cfg0_def)
  have z: "dir_writes cfg0 s0 = [] \<and> dir_pins cfg0 s0 = 0 \<and> HWDIRECTION_MASK cfg0 = 0x0E
           \<and> DIRECTION_PORT cfg0 = 0x40024000"
    by (simp add: dir_writes_def dir_pins_def s0_def cfg0_def)
  from direction_written_iff_new_block [OF h1 h2,
      of "\<lparr>new_block = True, dir_outbits = 2, step_outbits = 1\<rparr>" s0 s0]
  show ?thesis
    using h1 h2 by (simp add: d z)
qed

lemma step_value_frame [simp]:
  "step_value cfg (GPIOPinWrite p m v s) bits = step_value cfg s bits"
  "step_value cfg (TimerEnable b s) bits = step_value cfg s bits"
  "step_value cfg (TimerIntClear b f s) bits = step_value cfg s bits"
  "step_value cfg (timer_irq b f s) bits = step_value cfg s bits"
  "step_value cfg (s\<lparr>next_step_outbits := x\<rparr>) bits = step_value cfg s bits"
  by (simp_all add: step_value_def hw_defs timer_irq_def split: outmode.split)

lemma next_step_outbits_TimerIntClear:
  "next_step_outbits (TimerIntClear b f s) = next_step_outbits s"
  by (simp add: hw_defs)

lemma step_pins_dir_write:
  "separate_pins cfg \<Longrightarrow>
   step_pins cfg (GPIOPinWrite (DIRECTION_PORT cfg) (HWDIRECTION_MASK cfg) v s) = step_pins cfg s"
proof (cases "STEP_PORT cfg = DIRECTION_PORT cfg")
  case True
  assume "separate_pins cfg"
  with True have "HWDIRECTION_MASK cfg AND HWSTEP_MASK cfg = 0"
    by (simp add: separate_pins_def and.commute)
  from masked_write_other [OF this] True show ?thesis
    by (simp add: step_pins_def hw_defs)
next
  case False
  then show ?thesis
    by (simp add: step_pins_def hw_defs)
qed

lemma step_pins_step_write:
  "step_pins cfg (GPIOPinWrite (STEP_PORT cfg) (HWSTEP_MASK cfg) v s) = v AND HWSTEP_MASK cfg"
  by (simp add: step_pins_def hw_defs word_bw_assocs word_ao_dist)

lemma step_pins_frame [simp]:
  "step_pins cfg (TimerEnable b s) = step_pins cfg s"
  "step_pins cfg (TimerIntClear b f s) = step_pins cfg s"
  "step_pins cfg (timer_irq b f s) = step_pins cfg s"
  "step_pins cfg (s\<lparr>next_step_outbits := x\<rparr>) = step_pins cfg s"
  by (simp_all add: step_pins_def hw_defs timer_irq_def)

text \<open>
  C5. A command with an empty \<open>step_outbits\<close> makes both start functions do the same
  thing: clear \<open>new_block\<close> and, if it was set, write the direction outputs. The trace holds
  no \<open>TimerEnable\<close> and no step write, no timer changes its enable bit, the step pins and
  \<open>next_step_outbits\<close> stay as they were. The functions return no status.
\<close>
theorem empty_step_bits_no_pulse:
  assumes "step_outbits st = 0" and "separate_pins cfg"
  shows "stepperPulseStart cfg st s =
           (st\<lparr>new_block := False\<rparr>,
            if new_block st then set_dir_outputs cfg (dir_outbits st) s else s)
       \<and> stepperPulseStartDelayed cfg st s = stepperPulseStart cfg st s
       \<and> trace (snd (stepperPulseStart cfg st s)) =
           trace s @
           (if new_block st
            then [E_GPIOPinWrite (DIRECTION_PORT cfg) (HWDIRECTION_MASK cfg)
                    (dir_value cfg s (dir_outbits st))]
            else [])
       \<and> timer_enabled (snd (stepperPulseStart cfg st s)) = timer_enabled s
       \<and> step_pins cfg (snd (stepperPulseStart cfg st s)) = step_pins cfg s
       \<and> next_step_outbits (snd (stepperPulseStart cfg st s)) = next_step_outbits s"
proof -
  have a: "stepperPulseStart cfg st s =
           (st\<lparr>new_block := False\<rparr>,
            if new_block st then set_dir_outputs cfg (dir_outbits st) s else s)"
    using assms(1) by (cases "new_block st") (simp_all add: stepperPulseStart_def)
  have b: "stepperPulseStartDelayed cfg st s =
           (st\<lparr>new_block := False\<rparr>,
            if new_block st then set_dir_outputs cfg (dir_outbits st) s else s)"
    using assms(1) by (cases "new_block st") (simp_all add: stepperPulseStartDelayed_def)
  have c: "step_pins cfg (set_dir_outputs cfg bits s) = step_pins cfg s" for bits
    using assms(2) by (simp add: set_dir_outputs_eq step_pins_dir_write)
  have d: "trace (set_dir_outputs cfg bits s) =
             trace s @ [E_GPIOPinWrite (DIRECTION_PORT cfg) (HWDIRECTION_MASK cfg) (dir_value cfg s bits)]"
      "timer_enabled (set_dir_outputs cfg bits s) = timer_enabled s"
      "next_step_outbits (set_dir_outputs cfg bits s) = next_step_outbits s" for bits
    by (simp_all add: set_dir_outputs_eq hw_defs)
  show ?thesis
    by (simp add: a b c d)
qed

theorem empty_step_bits_no_pulse_witness:
  "step_outbits \<lparr>new_block = True, dir_outbits = 2, step_outbits = 0\<rparr> = 0
   \<and> separate_pins cfg0
   \<and> trace (snd (stepperPulseStart cfg0 \<lparr>new_block = True, dir_outbits = 2, step_outbits = 0\<rparr> s0)) =
       [E_GPIOPinWrite 0x40024000 0x0E 4]
   \<and> trace (snd (stepperPulseStartDelayed cfg0 \<lparr>new_block = True, dir_outbits = 2, step_outbits = 0\<rparr> s0)) =
       [E_GPIOPinWrite 0x40024000 0x0E 4]
   \<and> step_pins cfg0 (snd (stepperPulseStart cfg0 \<lparr>new_block = True, dir_outbits = 2, step_outbits = 0\<rparr> s0)) = 0"
proof -
  have h1: "step_outbits \<lparr>new_block = True, dir_outbits = 2, step_outbits = 0\<rparr> = 0"
    by simp
  have h2: "separate_pins cfg0"
    by (simp add: separate_pins_def cfg0_def)
  have d: "dir_value cfg0 s0 2 = 4"
    by (simp add: dir_value_def cfg0_def)
  have z: "trace s0 = [] \<and> step_pins cfg0 s0 = 0 \<and> HWDIRECTION_MASK cfg0 = 0x0E
           \<and> DIRECTION_PORT cfg0 = 0x40024000"
    by (simp add: step_pins_def s0_def cfg0_def)
  note t = empty_step_bits_no_pulse [OF h1 h2, of s0]
  note t2 = t [THEN conjunct2, THEN conjunct1]
  note t3 = t [THEN conjunct2, THEN conjunct2, THEN conjunct1]
  note t5 = t [THEN conjunct2, THEN conjunct2, THEN conjunct2, THEN conjunct2, THEN conjunct1]
  show ?thesis
    using h2 by (simp add: t2 t3 t5 d z)
qed

text \<open>
  C4. In delayed mode a command with step bits is stored in \<open>next_step_outbits\<close>; the
  start function enables the pulse timer and writes no step pin. The handler reads the
  masked interrupt status once, clears exactly the flags it read, and makes one step
  write: of the buffered pattern when the match flag is among them, of the empty pattern
  when it is not (a time-out alone).
\<close>
theorem delayed_pulse_buffered_then_applied:
  assumes "separate_pins cfg"
  shows "(step_outbits st \<noteq> 0 \<longrightarrow>
            next_step_outbits (snd (stepperPulseStartDelayed cfg st s)) = step_outbits st
          \<and> step_pins cfg (snd (stepperPulseStartDelayed cfg st s)) = step_pins cfg s
          \<and> trace (snd (stepperPulseStartDelayed cfg st s)) =
              trace s @
              (if new_block st
               then [E_GPIOPinWrite (DIRECTION_PORT cfg) (HWDIRECTION_MASK cfg)
                       (dir_value cfg s (dir_outbits st))]
               else []) @
              [E_TimerEnable (PULSE_TIMER_BASE cfg)])
       \<and> trace (stepper_pulse_isr_delayed cfg s) =
           trace s @
           [E_TimerIntClear (PULSE_TIMER_BASE cfg) (timer_mis s (PULSE_TIMER_BASE cfg)),
            E_GPIOPinWrite (STEP_PORT cfg) (HWSTEP_MASK cfg)
              (step_value cfg s
                 (if timer_mis s (PULSE_TIMER_BASE cfg) AND TIMER_TIMA_MATCH \<noteq> 0
                  then next_step_outbits s else 0))]
       \<and> timer_mis (stepper_pulse_isr_delayed cfg s) (PULSE_TIMER_BASE cfg) = 0
       \<and> (timer_mis s (PULSE_TIMER_BASE cfg) AND TIMER_TIMA_MATCH \<noteq> 0 \<longrightarrow>
            step_pins cfg (stepper_pulse_isr_delayed cfg s) =
              step_value cfg s (next_step_outbits s) AND HWSTEP_MASK cfg)
       \<and> (timer_mis s (PULSE_TIMER_BASE cfg) AND TIMER_TIMA_MATCH = 0 \<longrightarrow>
            stepper_pulse_isr_delayed cfg s =
              set_step_outputs cfg 0
                (TimerIntClear (PULSE_TIMER_BASE cfg) (timer_mis s (PULSE_TIMER_BASE cfg)) s)
          \<and> step_pins cfg (stepper_pulse_isr_delayed cfg s) = step_value cfg s 0 AND HWSTEP_MASK cfg)"
proof -
  have isr: "stepper_pulse_isr_delayed cfg s =
      GPIOPinWrite (STEP_PORT cfg) (HWSTEP_MASK cfg)
        (step_value cfg s
           (if timer_mis s (PULSE_TIMER_BASE cfg) AND TIMER_TIMA_MATCH \<noteq> 0
            then next_step_outbits s else 0))
        (TimerIntClear (PULSE_TIMER_BASE cfg) (timer_mis s (PULSE_TIMER_BASE cfg)) s)"
    by (simp add: stepper_pulse_isr_delayed_def Let_def set_step_outputs_eq TimerIntStatus_def
        next_step_outbits_TimerIntClear)
  have start: "step_outbits st \<noteq> 0 \<Longrightarrow>
      snd (stepperPulseStartDelayed cfg st s) =
        TimerEnable (PULSE_TIMER_BASE cfg)
          ((if new_block st then set_dir_outputs cfg (dir_outbits st) s else s)
             \<lparr>next_step_outbits := step_outbits st\<rparr>)"
    by (cases "new_block st") (simp_all add: stepperPulseStartDelayed_def)
  have c: "step_pins cfg (set_dir_outputs cfg bits s) = step_pins cfg s" for bits
    using assms by (simp add: set_dir_outputs_eq step_pins_dir_write)
  have d: "trace (set_dir_outputs cfg bits s) =
             trace s @ [E_GPIOPinWrite (DIRECTION_PORT cfg) (HWDIRECTION_MASK cfg) (dir_value cfg s bits)]"
    for bits
    by (simp add: set_dir_outputs_eq hw_defs)
  have p1: "step_outbits st \<noteq> 0 \<longrightarrow>
            next_step_outbits (snd (stepperPulseStartDelayed cfg st s)) = step_outbits st
          \<and> step_pins cfg (snd (stepperPulseStartDelayed cfg st s)) = step_pins cfg s
          \<and> trace (snd (stepperPulseStartDelayed cfg st s)) =
              trace s @
              (if new_block st
               then [E_GPIOPinWrite (DIRECTION_PORT cfg) (HWDIRECTION_MASK cfg)
                       (dir_value cfg s (dir_outbits st))]
               else []) @
              [E_TimerEnable (PULSE_TIMER_BASE cfg)]"
  proof (intro impI conjI)
    assume nz: "step_outbits st \<noteq> 0"
    show "next_step_outbits (snd (stepperPulseStartDelayed cfg st s)) = step_outbits st"
      by (simp add: start [OF nz] TimerEnable_def emit_def)
    show "step_pins cfg (snd (stepperPulseStartDelayed cfg st s)) = step_pins cfg s"
      by (simp add: start [OF nz] c)
    show "trace (snd (stepperPulseStartDelayed cfg st s)) =
              trace s @
              (if new_block st
               then [E_GPIOPinWrite (DIRECTION_PORT cfg) (HWDIRECTION_MASK cfg)
                       (dir_value cfg s (dir_outbits st))]
               else []) @
              [E_TimerEnable (PULSE_TIMER_BASE cfg)]"
      by (simp add: start [OF nz] d TimerEnable_def emit_def)
  qed
  have p2: "trace (stepper_pulse_isr_delayed cfg s) =
           trace s @
           [E_TimerIntClear (PULSE_TIMER_BASE cfg) (timer_mis s (PULSE_TIMER_BASE cfg)),
            E_GPIOPinWrite (STEP_PORT cfg) (HWSTEP_MASK cfg)
              (step_value cfg s
                 (if timer_mis s (PULSE_TIMER_BASE cfg) AND TIMER_TIMA_MATCH \<noteq> 0
                  then next_step_outbits s else 0))]"
    by (simp add: isr hw_defs)
  have p3: "timer_mis (stepper_pulse_isr_delayed cfg s) (PULSE_TIMER_BASE cfg) = 0"
    by (simp add: isr hw_defs)
  have pins: "step_pins cfg (stepper_pulse_isr_delayed cfg s) =
        step_value cfg s
           (if timer_mis s (PULSE_TIMER_BASE cfg) AND TIMER_TIMA_MATCH \<noteq> 0
            then next_step_outbits s else 0) AND HWSTEP_MASK cfg"
    by (simp only: isr step_pins_step_write)
  have p4: "timer_mis s (PULSE_TIMER_BASE cfg) AND TIMER_TIMA_MATCH \<noteq> 0 \<longrightarrow>
            step_pins cfg (stepper_pulse_isr_delayed cfg s) =
              step_value cfg s (next_step_outbits s) AND HWSTEP_MASK cfg"
    by (simp add: pins)
  have p5: "timer_mis s (PULSE_TIMER_BASE cfg) AND TIMER_TIMA_MATCH = 0 \<longrightarrow>
            stepper_pulse_isr_delayed cfg s =
              set_step_outputs cfg 0
                (TimerIntClear (PULSE_TIMER_BASE cfg) (timer_mis s (PULSE_TIMER_BASE cfg)) s)
          \<and> step_pins cfg (stepper_pulse_isr_delayed cfg s) = step_value cfg s 0 AND HWSTEP_MASK cfg"
    by (simp add: pins) (simp add: isr set_step_outputs_eq)
  from p1 p2 p3 p4 p5 show ?thesis
    by blast
qed

theorem delayed_pulse_buffered_then_applied_witness:
  "separate_pins cfg0
   \<and> step_outbits st5 \<noteq> 0
   \<and> next_step_outbits (snd (stepperPulseStartDelayed cfg0 st5 s0)) = 5
   \<and> step_pins cfg0 (snd (stepperPulseStartDelayed cfg0 st5 s0)) = 0
   \<and> timer_mis (timer_irq (PULSE_TIMER_BASE cfg0) TIMER_TIMA_MATCH
         (snd (stepperPulseStartDelayed cfg0 st5 s0))) (PULSE_TIMER_BASE cfg0) AND TIMER_TIMA_MATCH \<noteq> 0
   \<and> step_pins cfg0
        (stepper_pulse_isr_delayed cfg0
           (timer_irq (PULSE_TIMER_BASE cfg0) TIMER_TIMA_MATCH
              (snd (stepperPulseStartDelayed cfg0 st5 s0)))) = 5
   \<and> timer_mis (timer_irq (PULSE_TIMER_BASE cfg0) TIMER_TIMA_TIMEOUT
         (stepper_pulse_isr_delayed cfg0
           (timer_irq (PULSE_TIMER_BASE cfg0) TIMER_TIMA_MATCH
              (snd (stepperPulseStartDelayed cfg0 st5 s0))))) (PULSE_TIMER_BASE cfg0) AND TIMER_TIMA_MATCH = 0
   \<and> step_pins cfg0
        (stepper_pulse_isr_delayed cfg0
           (timer_irq (PULSE_TIMER_BASE cfg0) TIMER_TIMA_TIMEOUT
              (stepper_pulse_isr_delayed cfg0
                 (timer_irq (PULSE_TIMER_BASE cfg0) TIMER_TIMA_MATCH
                    (snd (stepperPulseStartDelayed cfg0 st5 s0)))))) = 0"
proof -
  have h: "separate_pins cfg0"
    by (simp add: separate_pins_def cfg0_def)
  define s1 where "s1 = snd (stepperPulseStartDelayed cfg0 st5 s0)"
  define s2 where "s2 = stepper_pulse_isr_delayed cfg0 (timer_irq (PULSE_TIMER_BASE cfg0) TIMER_TIMA_MATCH s1)"
  have nz: "step_outbits st5 \<noteq> 0"
    by (simp add: st5_def)
  note a = delayed_pulse_buffered_then_applied [OF h, of st5 s0, THEN conjunct1, rule_format, OF nz,
      folded s1_def]
  have v: "step_value cfg0 s 5 = 5" "step_value cfg0 s 0 = 0" for s
    by (simp_all add: step_value_def cfg0_def)
  have m: "HWSTEP_MASK cfg0 = 7"
    by (simp add: cfg0_def)
  have mis1: "timer_mis s1 (PULSE_TIMER_BASE cfg0) = 0"
    by (simp add: s1_def stepperPulseStartDelayed_def st5_def hw_defs s0_def)
  have f1: "timer_mis (timer_irq (PULSE_TIMER_BASE cfg0) TIMER_TIMA_MATCH s1) (PULSE_TIMER_BASE cfg0)
              AND TIMER_TIMA_MATCH \<noteq> 0"
    by (simp add: timer_irq_def mis1 TIMER_TIMA_MATCH_def)
  note b = delayed_pulse_buffered_then_applied [OF h,
      of _ "timer_irq (PULSE_TIMER_BASE cfg0) TIMER_TIMA_MATCH s1"]
  note b3 = b [THEN conjunct2, THEN conjunct2, THEN conjunct1, folded s2_def]
  note b4 = b [THEN conjunct2, THEN conjunct2, THEN conjunct2, THEN conjunct1, rule_format, OF f1,
      folded s2_def]
  have f2: "timer_mis (timer_irq (PULSE_TIMER_BASE cfg0) TIMER_TIMA_TIMEOUT s2) (PULSE_TIMER_BASE cfg0)
              AND TIMER_TIMA_MATCH = 0"
    by (simp add: timer_irq_def b3 TIMER_TIMA_MATCH_def TIMER_TIMA_TIMEOUT_def)
  note c = delayed_pulse_buffered_then_applied [OF h,
      of _ "timer_irq (PULSE_TIMER_BASE cfg0) TIMER_TIMA_TIMEOUT s2"]
  note c5 = c [THEN conjunct2, THEN conjunct2, THEN conjunct2, THEN conjunct2, rule_format, OF f2,
      THEN conjunct2]
  have n1: "next_step_outbits (timer_irq (PULSE_TIMER_BASE cfg0) TIMER_TIMA_MATCH s1) = 5"
    using a by (simp add: timer_irq_def st5_def)
  have p0: "step_pins cfg0 s0 = 0"
    by (simp add: step_pins_def s0_def)
  show ?thesis
    unfolding s1_def [symmetric] s2_def [symmetric]
    using h nz f1 f2 a b4 c5 by (simp add: n1 v m p0 st5_def)
qed

subsection \<open>Spindle off and probe query\<close>


lemma masked_set_idem:
  fixes x :: "'a::len word"
  shows "(x AND NOT m OR m) AND NOT m OR m = x AND NOT m OR m"
  by (rule bit_word_eqI) (auto simp add: bit_and_iff bit_or_iff bit_not_iff)

lemma direct_off_idem:
  "hw_state (spindle_set_speed_direct cfg (pwm_off_value cfg)
                  (spindle_set_speed_direct cfg (pwm_off_value cfg) s)) =
        hw_state (spindle_set_speed_direct cfg (pwm_off_value cfg) s)"
  by (cases "disable_with_zero_speed cfg"; cases "pwm_always_on cfg")
     (simp_all add: spindle_set_speed_direct_def hw_state_def Let_def spindle_off_def hw_defs
       masked_set_idem)

lemma direct_off_calls:
  "new_calls (spindle_set_speed_direct cfg (pwm_off_value cfg) s)
       (spindle_set_speed_direct cfg (pwm_off_value cfg)
          (spindle_set_speed_direct cfg (pwm_off_value cfg) s)) =
   new_calls s (spindle_set_speed_direct cfg (pwm_off_value cfg) s)"
  by (cases "disable_with_zero_speed cfg"; cases "pwm_always_on cfg")
     (simp_all add: spindle_set_speed_direct_def new_calls_def Let_def spindle_off_def hw_defs)

lemma ramped_off_idem:
  "hw_state (snd (spindle_set_speed_ramped cfg (pwm_off_value cfg)
                  (snd (spindle_set_speed_ramped cfg (pwm_off_value cfg) s)))) =
        hw_state (snd (spindle_set_speed_ramped cfg (pwm_off_value cfg) s))"
  by (simp add: spindle_set_speed_ramped_def hw_state_def SysTickEnable_def emit_def)

lemma ramped_off_calls:
  "new_calls s' (snd (spindle_set_speed_ramped cfg (pwm_off_value cfg) s')) = [E_SysTickEnable]"
  by (simp add: spindle_set_speed_ramped_def new_calls_def SysTickEnable_def emit_def)

text \<open>
  C7. In either variant, \<open>spindle_set_speed(off_value)\<close> called a second time leaves
  every static and every register as the first call left them, and makes the same
  peripheral calls the first call made (it writes the disabled state once more and
  nothing else).
\<close>
theorem set_speed_off_idempotent:
  "hw_state (spindle_set_speed cfg (pwm_off_value cfg) (spindle_set_speed cfg (pwm_off_value cfg) s)) =
     hw_state (spindle_set_speed cfg (pwm_off_value cfg) s)
   \<and> new_calls (spindle_set_speed cfg (pwm_off_value cfg) s)
        (spindle_set_speed cfg (pwm_off_value cfg) (spindle_set_speed cfg (pwm_off_value cfg) s)) =
     new_calls s (spindle_set_speed cfg (pwm_off_value cfg) s)"
proof (cases "PWM_RAMPED cfg")
  case True
  then show ?thesis
    by (simp add: spindle_set_speed_def ramped_off_idem ramped_off_calls)
next
  case False
  then show ?thesis
    by (simp add: spindle_set_speed_def direct_off_idem direct_off_calls)
qed

text \<open>
  C6, as amended. \<open>probeGetState\<close> reads the probe pin on every call and returns whether
  the pin, after the exclusive-or with \<open>probe_invert\<close>, is non-zero; the static
  \<open>probeState\<close> that the limit handlers write has no influence on the result.
\<close>
theorem probe_query_reads_pin:
  "probeGetState cfg s = ((gpio_data s (PROBE_PORT cfg) AND PROBE_PIN cfg) XOR probe_invert s \<noteq> 0)
   \<and> probeGetState cfg (s\<lparr>probeState := b\<rparr>) = probeGetState cfg s"
  by (simp add: probeGetState_def GPIOPinRead_def)

text \<open>
  After the rising probe edge the pin after invert is active, the handler has stored
  \<open>False\<close> in \<open>probeState\<close>, and the query answers \<open>True\<close>; when the pin then falls with
  \<open>probeState\<close> unchanged, the query answers \<open>False\<close>. The query follows the pin, not the
  cached value, and the cached value is not the pin after invert.
\<close>
theorem probe_query_not_cached_counterexample:
  "(gpio_data probe_edge_state (PROBE_PORT cfg0) AND PROBE_PIN cfg0) XOR probe_invert probe_edge_state \<noteq> 0
   \<and> \<not> probeState probe_edge_state
   \<and> probeGetState cfg0 probe_edge_state
   \<and> \<not> probeGetState cfg0 (gpio_levels (PROBE_PORT cfg0) 0 probe_edge_state)
   \<and> probeState (gpio_levels (PROBE_PORT cfg0) 0 probe_edge_state) = probeState probe_edge_state"
  by (simp add: probe_edge_state_def limit_isr_def probeGetState_def gpio_irq_def gpio_levels_def
      Let_def hw_defs cfg0_def s0_def)

subsection \<open>Tick scheduler\<close>

lemma systick_enabled_ramp_step: "systick_enabled (ramp_step cfg s) = systick_enabled s"
  by (simp add: ramp_step_def ramp_down_def ramp_up_def ramp_stop_def Let_def spindle_off_def hw_defs)

lemma systick_enabled_delay_tick: "systick_enabled (delay_tick s) = systick_enabled s"
  by (simp add: delay_tick_def Let_def hw_defs split: option.split)

lemma ms_cfg_delay_tick: "ms_cfg (delay_tick s) = ms_cfg s"
  by (simp add: delay_tick_def Let_def hw_defs split: option.split)

lemma systick_enabled_ramp_tick: "systick_enabled (ramp_tick cfg s) = systick_enabled s"
  by (simp add: ramp_tick_def Let_def systick_enabled_ramp_step)

lemma systick_isr_ramped_tail:
  "systick_isr_ramped cfg s =
     (let s2 = delay_tick (ramp_tick cfg s)
      in if delay_ms s2 = 0 \<and> ms_cfg s2 = 0 then SysTickDisable s2 else s2)"
  by (simp add: systick_isr_ramped_def Let_def)

lemma systick_enabled_ramped:
  "systick_enabled (systick_isr_ramped cfg s) =
     (if delay_ms (systick_isr_ramped cfg s) = 0 \<and> ms_cfg (systick_isr_ramped cfg s) = 0
      then False else systick_enabled s)"
proof -
  define s2 where "s2 = delay_tick (ramp_tick cfg s)"
  have en: "systick_enabled s2 = systick_enabled s"
    by (simp add: s2_def systick_enabled_delay_tick systick_enabled_ramp_tick)
  have eq: "systick_isr_ramped cfg s =
              (if delay_ms s2 = 0 \<and> ms_cfg s2 = 0 then SysTickDisable s2 else s2)"
    by (simp only: systick_isr_ramped_tail s2_def Let_def)
  show ?thesis
  proof (cases "delay_ms s2 = 0 \<and> ms_cfg s2 = 0")
    case True
    then show ?thesis
      by (simp add: eq SysTickDisable_def emit_def)
  next
    case False
    then have "systick_isr_ramped cfg s = s2"
      by (simp only: eq if_False)
    with False en show ?thesis
      by auto
  qed
qed

lemma systick_enabled_plain:
  "systick_enabled (systick_isr_plain s) =
     (if delay_ms (systick_isr_plain s) = 0 then False else systick_enabled s)"
  by (simp add: systick_isr_plain_def Let_def hw_defs split: option.split)

lemma systick_enabled_requests:
  "systick_enabled (snd (spindle_set_speed_ramped cfg v s))"
  "ms \<noteq> 0 \<Longrightarrow> systick_enabled (driver_delay_ms cfg ms (Some cb) s)"
  by (simp_all add: spindle_set_speed_ramped_def driver_delay_ms_def Let_def hw_defs
      split: option.split)


text \<open>
  C9. After the tick handler has run, SysTick is enabled only if it was enabled before
  and work is pending: with \<open>PWM_RAMPED\<close>, when \<open>delay.ms\<close> and \<open>pwm_ramp.ms_cfg\<close> are both
  zero the handler has disabled it; without, when \<open>delay.ms\<close> is zero. A ramp request and
  a delay request with a callback enable it again.
\<close>
theorem systick_disables_itself_when_idle:
  "systick_enabled (systick_isr_ramped cfg s) =
     (if delay_ms (systick_isr_ramped cfg s) = 0 \<and> ms_cfg (systick_isr_ramped cfg s) = 0
      then False else systick_enabled s)
   \<and> systick_enabled (systick_isr_plain s) =
     (if delay_ms (systick_isr_plain s) = 0 then False else systick_enabled s)
   \<and> systick_enabled (snd (spindle_set_speed_ramped cfg v s))
   \<and> (ms \<noteq> 0 \<longrightarrow> systick_enabled (driver_delay_ms cfg ms (Some cb) s))"
  using systick_enabled_ramped [of cfg s] systick_enabled_plain [of s]
    systick_enabled_requests
  by blast

theorem systick_disables_itself_when_idle_witness:
  "delay_ms (systick_isr_ramped cfg0 s_last_tick) = 0
   \<and> ms_cfg (systick_isr_ramped cfg0 s_last_tick) = 0
   \<and> systick_enabled s_last_tick
   \<and> \<not> systick_enabled (systick_isr_ramped cfg0 s_last_tick)
   \<and> \<not> systick_enabled (systick_isr_plain s_last_tick)
   \<and> (3 :: u32) \<noteq> 0
   \<and> systick_enabled (driver_delay_ms cfg0 3 (Some 7) s0)
   \<and> delay_ms (systick_isr_ramped cfg0 (s_last_tick\<lparr>delay_ms := 2\<rparr>)) = 1
   \<and> systick_enabled (systick_isr_ramped cfg0 (s_last_tick\<lparr>delay_ms := 2\<rparr>))"
proof -
  have a: "delay_ms (systick_isr_ramped cfg0 s_last_tick) = 0
           \<and> ms_cfg (systick_isr_ramped cfg0 s_last_tick) = 0"
    by (simp add: systick_isr_ramped_def ramp_tick_def delay_tick_def Let_def s_last_tick_def
        s0_def hw_defs)
  have b: "delay_ms (systick_isr_plain s_last_tick) = 0"
    by (simp add: systick_isr_plain_def Let_def s_last_tick_def s0_def hw_defs)
  have c: "delay_ms (systick_isr_ramped cfg0 (s_last_tick\<lparr>delay_ms := 2\<rparr>)) = 1"
    by (simp add: systick_isr_ramped_def ramp_tick_def delay_tick_def Let_def s_last_tick_def
        s0_def hw_defs)
  have e: "systick_enabled s_last_tick" "systick_enabled (s_last_tick\<lparr>delay_ms := 2\<rparr>)"
    by (simp_all add: s_last_tick_def)
  from systick_disables_itself_when_idle [where cfg = cfg0 and s = s_last_tick]
    systick_disables_itself_when_idle [where cfg = cfg0 and s = "s_last_tick\<lparr>delay_ms := 2\<rparr>"]
    systick_disables_itself_when_idle [where cfg = cfg0 and s = s0 and ms = 3 and cb = 7]
  show ?thesis
    using a b c e by simp
qed

lemma u32_dec_zero: "(x :: u32) \<noteq> 0 \<Longrightarrow> (x - 1 = 0) = (x = 1)"
  by auto

lemma callback_count_emit:
  "callback_count cb (emit c s) = callback_count cb s + (if c = E_callback cb then 1 else 0)"
  by (simp add: callback_count_def emit_def)

lemma callback_count_upd [simp]:
  "callback_count cb (s\<lparr>delay_ms := a\<rparr>) = callback_count cb s"
  "callback_count cb (s\<lparr>delay_callback := b\<rparr>) = callback_count cb s"
  "callback_count cb (s\<lparr>systick_enabled := e\<rparr>) = callback_count cb s"
  "callback_count cb (s\<lparr>ramp_delay_ms := d\<rparr>) = callback_count cb s"
  by (simp_all add: callback_count_def)

lemma delay_tick_fields:
  "delay_ms (delay_tick s) = (if delay_ms s = 0 then 0 else delay_ms s - 1)"
  "delay_callback (delay_tick s) = (if delay_ms s = 1 then None else delay_callback s)"
  "callback_count cb (delay_tick s) =
     callback_count cb s + (if delay_ms s = 1 \<and> delay_callback s = Some cb then 1 else 0)"
  by (auto simp add: delay_tick_def Let_def invoke_def emit_def callback_count_def
      u32_dec_zero split: option.split)

lemma ramp_step_delay_frame:
  "delay_callback (ramp_step cfg s) = delay_callback s"
  "callback_count cb (ramp_step cfg s) = callback_count cb s"
  by (simp_all add: ramp_step_def ramp_down_def ramp_up_def ramp_stop_def Let_def spindle_off_def
      hw_defs callback_count_def)

lemma ramp_tick_delay_frame:
  "delay_callback (ramp_tick cfg s) = delay_callback s"
  "callback_count cb (ramp_tick cfg s) = callback_count cb s"
  by (simp_all add: ramp_tick_def Let_def ramp_step_delay_frame)

lemma SysTickDisable_delay_frame:
  "delay_callback (SysTickDisable s) = delay_callback s"
  "callback_count cb (SysTickDisable s) = callback_count cb s"
  by (simp_all add: SysTickDisable_def emit_def callback_count_def)

lemma systick_isr_ramped_fields:
  "delay_callback (systick_isr_ramped cfg s) = (if delay_ms s = 1 then None else delay_callback s)"
  "callback_count cb (systick_isr_ramped cfg s) =
     callback_count cb s + (if delay_ms s = 1 \<and> delay_callback s = Some cb then 1 else 0)"
  by (simp_all add: systick_isr_ramped_tail Let_def delay_tick_fields ramp_tick_delay_frame
      delay_ms_ramp_tick SysTickDisable_delay_frame)

lemma systick_isr_plain_fields:
  "delay_callback (systick_isr_plain s) = (if delay_ms s = 1 then None else delay_callback s)"
  "callback_count cb (systick_isr_plain s) =
     callback_count cb s + (if delay_ms s = 1 \<and> delay_callback s = Some cb then 1 else 0)"
  by (auto simp add: systick_isr_plain_def Let_def SysTickDisable_def invoke_def
      callback_count_emit emit_def callback_count_def split: option.split)

lemma systick_isr_fields:
  "delay_callback (systick_isr cfg s) = (if delay_ms s = 1 then None else delay_callback s)"
  "callback_count cb (systick_isr cfg s) =
     callback_count cb s + (if delay_ms s = 1 \<and> delay_callback s = Some cb then 1 else 0)"
  by (simp_all add: systick_isr_def systick_isr_ramped_fields systick_isr_plain_fields)

lemma ticks_idle:
  "delay_callback s = None \<Longrightarrow>
   callback_count cb (ticks cfg n s) = callback_count cb s \<and> delay_callback (ticks cfg n s) = None"
  by (induction n arbitrary: s) (simp_all add: systick_isr_fields)

lemma ticks_countdown:
  "delay_callback s = Some cb \<Longrightarrow> delay_ms s \<noteq> 0 \<Longrightarrow>
   callback_count cb (ticks cfg n s) =
     callback_count cb s + (if unat (delay_ms s) \<le> n then 1 else 0)
   \<and> delay_callback (ticks cfg n s) = (if unat (delay_ms s) \<le> n then None else Some cb)"
proof (induction n arbitrary: s)
  case 0
  then show ?case
    by (simp add: unat_eq_0)
next
  case (Suc n)
  show ?case
  proof (cases "delay_ms s = 1")
    case True
    then have "delay_callback (systick_isr cfg s) = None"
      by (simp add: systick_isr_fields)
    from ticks_idle [OF this, of cb cfg n] True Suc.prems show ?thesis
      by (simp add: systick_isr_fields)
  next
    case False
    with Suc.prems have nz: "delay_ms (systick_isr cfg s) \<noteq> 0"
      by (simp add: delay_ms_systick_isr)
    from False Suc.prems have cb: "delay_callback (systick_isr cfg s) = Some cb"
      by (simp add: systick_isr_fields)
    from Suc.prems have u: "unat (delay_ms (systick_isr cfg s)) = unat (delay_ms s) - 1"
      by (simp add: delay_ms_systick_isr unat_minus_one)
    from Suc.prems have pos: "0 < unat (delay_ms s)"
      by (simp add: unat_gt_0)
    from Suc.IH [OF cb nz] False Suc.prems u pos show ?thesis
      by (auto simp add: systick_isr_fields)
  qed
qed

lemma wait_delay_done: "delay_ms (wait_delay cfg s) = 0"
proof (induction cfg s rule: wait_delay.induct)
  case (1 cfg s)
  then show ?case
    by (cases "delay_ms s = 0") (simp_all add: wait_delay.simps [of cfg s])
qed

lemma wait_delay_ticks: "wait_delay cfg s = ticks cfg (unat (delay_ms s)) s"
proof (induction cfg s rule: wait_delay.induct)
  case (1 cfg s)
  show ?case
  proof (cases "delay_ms s = 0")
    case True
    then show ?thesis by (simp add: wait_delay.simps [of cfg s])
  next
    case False
    then have "0 < unat (delay_ms s)"
      by (simp add: unat_gt_0)
    then obtain k where k: "unat (delay_ms s) = Suc k"
      by (cases "unat (delay_ms s)") simp_all
    from False have "unat (delay_ms (systick_isr cfg s)) = unat (delay_ms s) - 1"
      by (simp add: delay_ms_systick_isr unat_minus_one)
    with k have "unat (delay_ms (systick_isr cfg s)) = k"
      by simp
    with "1.IH" [OF False] have "wait_delay cfg (systick_isr cfg s) = ticks cfg k (systick_isr cfg s)"
      by simp
    with False k show ?thesis
      by (simp add: wait_delay.simps [of cfg s])
  qed
qed

lemma delay_armed_fields:
  "delay_ms (delay_armed ms callback s) = ms"
  "delay_callback (delay_armed ms callback s) = callback"
  "trace (delay_armed ms callback s) =
     trace s @ (case delay_callback s of Some c \<Rightarrow> [E_callback c] | None \<Rightarrow> []) @ [E_SysTickEnable]"
  by (simp_all add: delay_armed_def hw_defs split: option.split)

lemma driver_delay_ms_nonzero:
  "ms \<noteq> 0 \<Longrightarrow>
   driver_delay_ms cfg ms callback s =
     (if callback = None then wait_delay cfg (delay_armed ms None s) else delay_armed ms callback s)"
  by (simp add: driver_delay_ms_def delay_armed_def Let_def)

text \<open>
  C8. For \<open>ms > 0\<close>: with a null callback \<open>driver_delay_ms\<close> returns after exactly \<open>ms\<close>
  ticks of the SysTick handler, with \<open>delay.ms\<close> at zero. With a callback it returns
  without a tick having run, the countdown loaded and the callback stored; of the ticks
  that follow, the one that brings the countdown to zero invokes the callback and clears
  it, so the callback has been invoked no time before tick \<open>ms\<close> and exactly once from
  then on.
\<close>
theorem delay_waits_or_calls_back_once:
  assumes "ms \<noteq> 0"
  shows "driver_delay_ms cfg ms None s = ticks cfg (unat ms) (delay_armed ms None s)
       \<and> delay_ms (driver_delay_ms cfg ms None s) = 0
       \<and> driver_delay_ms cfg ms (Some cb) s = delay_armed ms (Some cb) s
       \<and> delay_ms (driver_delay_ms cfg ms (Some cb) s) = ms
       \<and> delay_callback (driver_delay_ms cfg ms (Some cb) s) = Some cb
       \<and> new_calls s (driver_delay_ms cfg ms (Some cb) s) =
           (case delay_callback s of Some c \<Rightarrow> [E_callback c] | None \<Rightarrow> []) @ [E_SysTickEnable]
       \<and> callback_count cb (ticks cfg n (driver_delay_ms cfg ms (Some cb) s)) =
           callback_count cb (driver_delay_ms cfg ms (Some cb) s) + (if unat ms \<le> n then 1 else 0)
       \<and> delay_callback (ticks cfg n (driver_delay_ms cfg ms (Some cb) s)) =
           (if unat ms \<le> n then None else Some cb)"
proof -
  have a: "driver_delay_ms cfg ms None s = wait_delay cfg (delay_armed ms None s)"
    using assms by (simp add: driver_delay_ms_nonzero)
  have b: "driver_delay_ms cfg ms (Some cb) s = delay_armed ms (Some cb) s"
    using assms by (simp add: driver_delay_ms_nonzero)
  have c: "delay_callback (delay_armed ms (Some cb) s) = Some cb"
          "delay_ms (delay_armed ms (Some cb) s) \<noteq> 0"
    using assms by (simp_all add: delay_armed_fields)
  note d = ticks_countdown [OF c, of cfg n]
  have e: "delay_ms (driver_delay_ms cfg ms None s) = 0"
    by (simp add: a wait_delay_done)
  have f: "driver_delay_ms cfg ms None s = ticks cfg (unat ms) (delay_armed ms None s)"
    by (simp add: a wait_delay_ticks delay_armed_fields)
  show ?thesis
    using d e f by (simp add: b delay_armed_fields new_calls_def)
qed

theorem delay_waits_or_calls_back_once_witness:
  "(3 :: u32) \<noteq> 0
   \<and> delay_ms (driver_delay_ms cfg0 3 None s0) = 0
   \<and> driver_delay_ms cfg0 3 None s0 = ticks cfg0 3 (delay_armed 3 None s0)
   \<and> new_calls s0 (driver_delay_ms cfg0 3 (Some 7) s0) = [E_SysTickEnable]
   \<and> callback_count 7 (ticks cfg0 2 (driver_delay_ms cfg0 3 (Some 7) s0)) = 0
   \<and> callback_count 7 (ticks cfg0 3 (driver_delay_ms cfg0 3 (Some 7) s0)) = 1
   \<and> callback_count 7 (ticks cfg0 10 (driver_delay_ms cfg0 3 (Some 7) s0)) = 1
   \<and> delay_callback (ticks cfg0 3 (driver_delay_ms cfg0 3 (Some 7) s0)) = None"
proof -
  have h: "(3 :: u32) \<noteq> 0"
    by simp
  have z: "callback_count 7 (delay_armed 3 (Some 7) s0) = 0" "delay_callback s0 = None"
    by (simp_all add: callback_count_def delay_armed_fields s0_def)
  note t = delay_waits_or_calls_back_once [OF h, of cfg0 s0 7]
  note t3 = t [THEN conjunct2, THEN conjunct2, THEN conjunct1]
  from t [of 2] t [of 3] t [of 10] show ?thesis
    using z by (simp add: t3)
qed

subsection \<open>Spindle ramp\<close>

lemma ramp_of_emit [simp]: "ramp_of (emit c s) = ramp_of s"
  by (simp add: ramp_of_def emit_def)

lemma ramp_frames [simp]:
  "ms_cfg (GPIOPinWrite p m v s) = ms_cfg s"
  "ramp_delay_ms (GPIOPinWrite p m v s) = ramp_delay_ms s"
  "pwm_current (GPIOPinWrite p m v s) = pwm_current s"
  "pwm_target (GPIOPinWrite p m v s) = pwm_target s"
  "pwm_step (GPIOPinWrite p m v s) = pwm_step s"
  "pwmEnabled (GPIOPinWrite p m v s) = pwmEnabled s"
  "ms_cfg (TimerLoadSet b x s) = ms_cfg s"
  "ramp_delay_ms (TimerLoadSet b x s) = ramp_delay_ms s"
  "pwm_current (TimerLoadSet b x s) = pwm_current s"
  "pwm_target (TimerLoadSet b x s) = pwm_target s"
  "pwm_step (TimerLoadSet b x s) = pwm_step s"
  "pwmEnabled (TimerLoadSet b x s) = pwmEnabled s"
  "ms_cfg (TimerMatchSet b x s) = ms_cfg s"
  "ramp_delay_ms (TimerMatchSet b x s) = ramp_delay_ms s"
  "pwm_current (TimerMatchSet b x s) = pwm_current s"
  "pwm_target (TimerMatchSet b x s) = pwm_target s"
  "pwm_step (TimerMatchSet b x s) = pwm_step s"
  "pwmEnabled (TimerMatchSet b x s) = pwmEnabled s"
  "ms_cfg (TimerDisable b s) = ms_cfg s"
  "ramp_delay_ms (TimerDisable b s) = ramp_delay_ms s"
  "pwm_current (TimerDisable b s) = pwm_current s"
  "pwm_target (TimerDisable b s) = pwm_target s"
  "pwm_step (TimerDisable b s) = pwm_step s"
  "pwmEnabled (TimerDisable b s) = pwmEnabled s"
  "ms_cfg (TimerControlLevel b l s) = ms_cfg s"
  "ramp_delay_ms (TimerControlLevel b l s) = ramp_delay_ms s"
  "pwm_current (TimerControlLevel b l s) = pwm_current s"
  "pwm_target (TimerControlLevel b l s) = pwm_target s"
  "pwm_step (TimerControlLevel b l s) = pwm_step s"
  "pwmEnabled (TimerControlLevel b l s) = pwmEnabled s"
  by (simp_all add: GPIOPinWrite_def TimerLoadSet_def TimerMatchSet_def TimerDisable_def
      TimerControlLevel_def emit_def)

lemma ramp_frames_spindle_off [simp]:
  "ms_cfg (spindle_off cfg s) = ms_cfg s"
  "ramp_delay_ms (spindle_off cfg s) = ramp_delay_ms s"
  "pwm_current (spindle_off cfg s) = pwm_current s"
  "pwm_target (spindle_off cfg s) = pwm_target s"
  "pwm_step (spindle_off cfg s) = pwm_step s"
  "pwmEnabled (spindle_off cfg s) = pwmEnabled s"
  by (simp_all add: spindle_off_def)

lemma ramp_stop_fields [simp]:
  "ms_cfg (ramp_stop cfg s) = ms_cfg s"
  "ramp_delay_ms (ramp_stop cfg s) = ramp_delay_ms s"
  "pwm_current (ramp_stop cfg s) = pwm_current s"
  "pwm_target (ramp_stop cfg s) = pwm_target s"
  "pwm_step (ramp_stop cfg s) = pwm_step s"
  by (simp_all add: ramp_stop_def Let_def)

lemma ramp_down_fields:
  "ms_cfg (ramp_down cfg s) = ms_cfg s"
  "ramp_delay_ms (ramp_down cfg s) = ramp_delay_ms s"
  "pwm_current (ramp_down cfg s) =
     (if sint (pwm_current s) < sint (pwm_target s) then pwm_target s else pwm_current s)"
  "pwm_target (ramp_down cfg s) = pwm_target s"
  "pwm_step (ramp_down cfg s) = pwm_step s"
  by (simp_all add: ramp_down_def Let_def)

lemma ramp_up_fields:
  "ms_cfg (ramp_up cfg s) = ms_cfg s"
  "ramp_delay_ms (ramp_up cfg s) = ramp_delay_ms s"
  "pwm_current (ramp_up cfg s) =
     (if sint (pwm_target s) < sint (pwm_current s) then pwm_target s else pwm_current s)"
  "pwm_target (ramp_up cfg s) = pwm_target s"
  "pwm_step (ramp_up cfg s) = pwm_step s"
  by (simp_all add: ramp_up_def Let_def)

lemma ramp_step_fields:
  "pwm_target (ramp_step cfg s) = pwm_target s"
  "pwm_step (ramp_step cfg s) = pwm_step s"
  "ramp_delay_ms (ramp_step cfg s) = 0"
  "pwm_current (ramp_step cfg s) = ramp_clamp (pwm_current s) (pwm_target s) (pwm_step s)"
  "ms_cfg (ramp_step cfg s) =
     (if ramp_clamp (pwm_current s) (pwm_target s) (pwm_step s) = pwm_target s then 0 else ms_cfg s)"
proof -
  define b where "b = s\<lparr>ramp_delay_ms := 0, pwm_current := pwm_current s + pwm_step s\<rparr>"
  define c where "c = (if sint (pwm_step b) < 0 then ramp_down cfg b else ramp_up cfg b)"
  have rs: "ramp_step cfg s = (if pwm_current c = pwm_target c then c\<lparr>ms_cfg := 0\<rparr> else c)"
    unfolding ramp_step_def Let_def b_def c_def by simp
  have bf: "pwm_current b = pwm_current s + pwm_step s" "pwm_target b = pwm_target s"
    "pwm_step b = pwm_step s" "ramp_delay_ms b = 0" "ms_cfg b = ms_cfg s"
    by (simp_all add: b_def)
  have cf: "pwm_current c = ramp_clamp (pwm_current s) (pwm_target s) (pwm_step s)
            \<and> pwm_target c = pwm_target s \<and> pwm_step c = pwm_step s
            \<and> ramp_delay_ms c = 0 \<and> ms_cfg c = ms_cfg s"
  proof (cases "sint (pwm_step s) < 0")
    case True
    then have "c = ramp_down cfg b"
      by (simp add: c_def bf)
    with True show ?thesis
      by (simp only: ramp_down_fields bf ramp_clamp_def Let_def if_True simp_thms)
  next
    case False
    then have "c = ramp_up cfg b"
      by (simp add: c_def bf)
    with False show ?thesis
      by (simp only: ramp_up_fields bf ramp_clamp_def Let_def if_False simp_thms)
  qed
  show "pwm_target (ramp_step cfg s) = pwm_target s"
    by (simp add: rs cf)
  show "pwm_step (ramp_step cfg s) = pwm_step s"
    by (simp add: rs cf)
  show "ramp_delay_ms (ramp_step cfg s) = 0"
    by (simp add: rs cf)
  show "pwm_current (ramp_step cfg s) = ramp_clamp (pwm_current s) (pwm_target s) (pwm_step s)"
    by (simp add: rs cf)
  show "ms_cfg (ramp_step cfg s) =
     (if ramp_clamp (pwm_current s) (pwm_target s) (pwm_step s) = pwm_target s then 0 else ms_cfg s)"
    by (simp add: rs cf)
qed

lemma ramp_of_ramp_step:
  "ramp_of (ramp_step cfg s) =
     ((if ramp_clamp (pwm_current s) (pwm_target s) (pwm_step s) = pwm_target s then 0 else ms_cfg s),
      0, ramp_clamp (pwm_current s) (pwm_target s) (pwm_step s), pwm_target s, pwm_step s)"
  by (simp add: ramp_of_def ramp_step_fields)

lemma ramp_of_delay_tick: "ramp_of (delay_tick s) = ramp_of s"
  by (simp add: delay_tick_def Let_def invoke_def ramp_of_def emit_def split: option.split)

lemma ramp_of_SysTickDisable: "ramp_of (SysTickDisable s) = ramp_of s"
  by (simp add: SysTickDisable_def ramp_of_def emit_def)

lemma ramp_of_systick_isr_ramped:
  "ramp_of (systick_isr_ramped cfg s) = ramp_of (ramp_tick cfg s)"
  by (simp add: systick_isr_ramped_tail Let_def ramp_of_SysTickDisable ramp_of_delay_tick)

lemma ramp_tick_idle:
  "ms_cfg s = 0 \<Longrightarrow> ramp_of (ramp_tick cfg s) = ramp_of s"
  by (simp add: ramp_tick_def)

lemma ramp_tick_wait:
  "ms_cfg s = 2 \<Longrightarrow> ramp_delay_ms s = 0 \<Longrightarrow>
   ramp_of (ramp_tick cfg s) = (2, 1, pwm_current s, pwm_target s, pwm_step s)"
  by (simp add: ramp_tick_def Let_def ramp_of_def)

lemma ramp_tick_due:
  "ms_cfg s = 2 \<Longrightarrow> ramp_delay_ms s = 1 \<Longrightarrow>
   ramp_of (ramp_tick cfg s) =
     ((if ramp_clamp (pwm_current s) (pwm_target s) (pwm_step s) = pwm_target s then 0 else 2),
      0, ramp_clamp (pwm_current s) (pwm_target s) (pwm_step s), pwm_target s, pwm_step s)"
  by (simp add: ramp_tick_def Let_def ramp_of_ramp_step)

lemma ticks_add: "ticks cfg (a + b) s = ticks cfg b (ticks cfg a s)"
  by (induction a arbitrary: s) simp_all

lemma ticks_Suc_right: "ticks cfg (Suc n) s = systick_isr cfg (ticks cfg n s)"
  using ticks_add [of cfg n 1 s] by simp

lemma ramp_of_tick:
  assumes "PWM_RAMPED cfg"
  shows "ms_cfg s = 0 \<Longrightarrow> ramp_of (systick_isr cfg s) = ramp_of s"
    and "ms_cfg s = 2 \<Longrightarrow> ramp_delay_ms s = 0 \<Longrightarrow>
         ramp_of (systick_isr cfg s) = (2, 1, pwm_current s, pwm_target s, pwm_step s)"
    and "ms_cfg s = 2 \<Longrightarrow> ramp_delay_ms s = 1 \<Longrightarrow>
         ramp_of (systick_isr cfg s) =
           ((if ramp_clamp (pwm_current s) (pwm_target s) (pwm_step s) = pwm_target s then 0 else 2),
            0, ramp_clamp (pwm_current s) (pwm_target s) (pwm_step s), pwm_target s, pwm_step s)"
  using assms
  by (simp_all add: systick_isr_def ramp_of_systick_isr_ramped ramp_tick_idle ramp_tick_wait
      ramp_tick_due)

lemma sint_add_no_overflow:
  fixes a b :: u32
  assumes "- 2147483648 \<le> sint a + sint b" and "sint a + sint b \<le> 2147483647"
  shows "sint (a + b) = sint a + sint b"
  using assms by (simp add: sint_word_ariths signed_take_bit_int_eq_self)

lemma sint_step_values: "sint (20 :: u32) = 20" "sint (- 20 :: u32) = - 20"
  by simp_all

lemma ramp_clamp_sint:
  fixes cur tgt :: u32
  assumes "- 2147483628 \<le> sint cur" "sint cur \<le> 2147483627"
  shows "sint (ramp_clamp cur tgt 20) = min (sint tgt) (sint cur + 20)"
    and "sint (ramp_clamp cur tgt (- 20)) = max (sint tgt) (sint cur - 20)"
proof -
  have up: "sint (cur + 20) = sint cur + 20"
    using assms sint_add_no_overflow [of cur 20] by simp
  have down: "sint (cur + - 20) = sint cur - 20"
    using assms sint_add_no_overflow [of cur "- 20"] by simp
  show "sint (ramp_clamp cur tgt 20) = min (sint tgt) (sint cur + 20)"
    by (simp add: ramp_clamp_def Let_def up)
  show "sint (ramp_clamp cur tgt (- 20)) = max (sint tgt) (sint cur - 20)"
    by (simp add: ramp_clamp_def Let_def down del: add_uminus_conv_diff)
qed

lemma ramp_value_0: "ramp_value c0 t 0 = c0"
  by (simp add: ramp_value_def)

lemma ramp_value_up: "c0 \<le> t \<Longrightarrow> min t (ramp_value c0 t k + 20) = ramp_value c0 t (Suc k)"
  by (auto simp add: ramp_value_def max_def min_def)

lemma ramp_value_down: "t \<le> c0 \<Longrightarrow> max t (ramp_value c0 t k - 20) = ramp_value c0 t (Suc k)"
  by (auto simp add: ramp_value_def max_def min_def)

lemma ramp_value_stable: "ramp_value c0 t k = t \<Longrightarrow> ramp_value c0 t (Suc k) = t"
  by (simp add: ramp_value_def split: if_splits)

lemma ramp_value_between:
  "min c0 t \<le> ramp_value c0 t k" "ramp_value c0 t k \<le> max c0 t"
  by (simp_all add: ramp_value_def)

lemma ramp_value_reached: "(ramp_value c0 t k = t) = (ramp_ticks c0 t \<le> k)"
  by (auto simp add: ramp_value_def ramp_ticks_def)

lemma ramp_clamp_step:
  assumes st: "ramp_started s"
    and cur: "sint (pwm_current sk) = ramp_value (sint (pwm_current s)) (sint (pwm_target s)) k"
  shows "sint (ramp_clamp (pwm_current sk) (pwm_target s) (pwm_step s)) =
           ramp_value (sint (pwm_current s)) (sint (pwm_target s)) (Suc k)"
proof -
  define C where "C = sint (pwm_current s)"
  define T where "T = sint (pwm_target s)"
  from st have bC: "- 2147483628 \<le> C" "C \<le> 2147483627"
    and bT: "- 2147483628 \<le> T" "T \<le> 2147483627"
    by (simp_all add: ramp_started_def C_def T_def)
  from st have dir: "pwm_step s = 20 \<and> C \<le> T \<or> pwm_step s = - 20 \<and> T \<le> C"
    by (auto simp add: ramp_started_def C_def T_def split: if_splits)
  from ramp_value_between [of C T k] bC bT cur
  have bk: "- 2147483628 \<le> sint (pwm_current sk)" "sint (pwm_current sk) \<le> 2147483627"
    by (simp_all add: C_def T_def)
  show ?thesis
    unfolding C_def [symmetric] T_def [symmetric]
  proof (cases "pwm_step s = 20")
    case True
    with dir have "C \<le> T" by auto
    from ramp_value_up [OF this, of k] ramp_clamp_sint(1) [OF bk, of "pwm_target s"] True
    show "sint (ramp_clamp (pwm_current sk) (pwm_target s) (pwm_step s)) = ramp_value C T (Suc k)"
      by (simp add: cur [folded C_def T_def] T_def)
  next
    case False
    with dir have d: "pwm_step s = - 20" "T \<le> C" by auto
    from ramp_value_down [OF d(2), of k] ramp_clamp_sint(2) [OF bk, of "pwm_target s"] d(1)
    show "sint (ramp_clamp (pwm_current sk) (pwm_target s) (pwm_step s)) = ramp_value C T (Suc k)"
      by (simp add: cur [folded C_def T_def] T_def)
  qed
qed

lemma ramp_due_tick:
  assumes ramped: "PWM_RAMPED cfg" and st: "ramp_started s"
    and m: "ms_cfg sk = 2" and d: "ramp_delay_ms sk = 1"
    and cur: "sint (pwm_current sk) = ramp_value (sint (pwm_current s)) (sint (pwm_target s)) k"
    and tgt: "pwm_target sk = pwm_target s" and stp: "pwm_step sk = pwm_step s"
  shows "ramp_at s (systick_isr cfg sk) (Suc k)"
proof -
  define new where "new = ramp_clamp (pwm_current sk) (pwm_target s) (pwm_step s)"
  have r: "ramp_of (systick_isr cfg sk) =
             ((if new = pwm_target s then 0 else 2), 0, new, pwm_target s, pwm_step s)"
    using ramp_of_tick(3) [OF ramped m d] by (simp add: tgt stp new_def)
  have snew: "sint new = ramp_value (sint (pwm_current s)) (sint (pwm_target s)) (Suc k)"
    unfolding new_def by (rule ramp_clamp_step [OF st cur])
  have "(new = pwm_target s) = (sint new = sint (pwm_target s))"
    by (rule word_eq_iff_signed)
  with r snew show ?thesis
    by (simp add: ramp_at_def ramp_of_def)
qed

lemma ramp_two_ticks:
  assumes ramped: "PWM_RAMPED cfg" and st: "ramp_started s" and at: "ramp_at s sk k"
  shows "ramp_at s (systick_isr cfg (systick_isr cfg sk)) (Suc k)"
proof (cases "ms_cfg sk = 0")
  case True
  with at have reached:
    "ramp_value (sint (pwm_current s)) (sint (pwm_target s)) k = sint (pwm_target s)"
    by (simp add: ramp_at_def split: if_splits)
  from True have a: "ramp_of (systick_isr cfg sk) = ramp_of sk"
    by (rule ramp_of_tick(1) [OF ramped])
  with True have "ramp_of (systick_isr cfg (systick_isr cfg sk)) = ramp_of (systick_isr cfg sk)"
    by (intro ramp_of_tick(1) [OF ramped]) (simp add: ramp_of_def)
  with a have "ramp_of (systick_isr cfg (systick_isr cfg sk)) = ramp_of sk"
    by simp
  with at True reached ramp_value_stable [OF reached] show ?thesis
    by (simp add: ramp_at_def ramp_of_def)
next
  case False
  with at have m2: "ms_cfg sk = 2" and d0: "ramp_delay_ms sk = 0"
    by (simp_all add: ramp_at_def split: if_splits)
  from at have cur: "sint (pwm_current sk) = ramp_value (sint (pwm_current s)) (sint (pwm_target s)) k"
    and tgt: "pwm_target sk = pwm_target s" and stp: "pwm_step sk = pwm_step s"
    by (simp_all add: ramp_at_def)
  have "ramp_of (systick_isr cfg sk) = (2, 1, pwm_current sk, pwm_target sk, pwm_step sk)"
    by (rule ramp_of_tick(2) [OF ramped m2 d0])
  then have f1: "ms_cfg (systick_isr cfg sk) = 2" "ramp_delay_ms (systick_isr cfg sk) = 1"
    "pwm_current (systick_isr cfg sk) = pwm_current sk"
    "pwm_target (systick_isr cfg sk) = pwm_target sk"
    "pwm_step (systick_isr cfg sk) = pwm_step sk"
    by (simp_all add: ramp_of_def)
  show ?thesis
    by (rule ramp_due_tick [OF ramped st f1(1) f1(2)]) (simp_all add: f1 cur tgt stp)
qed

lemma ramp_run_even:
  assumes ramped: "PWM_RAMPED cfg" and st: "ramp_started s" and at: "ramp_at s sj j"
  shows "ramp_at s (ticks cfg (2 * k) sj) (j + k)"
proof (induction k)
  case 0
  from at show ?case by simp
next
  case (Suc k)
  have "ticks cfg 2 (ticks cfg (2 * k) sj) =
          systick_isr cfg (systick_isr cfg (ticks cfg (2 * k) sj))"
    by (simp add: numeral_2_eq_2)
  with ticks_add [of cfg "2 * k" 2 sj]
  have "ticks cfg (2 * Suc k) sj = systick_isr cfg (systick_isr cfg (ticks cfg (2 * k) sj))"
    by simp
  with ramp_two_ticks [OF ramped st Suc.IH] show ?case
    by (simp only: add_Suc_right)
qed

lemma ramp_run_from:
  assumes ramped: "PWM_RAMPED cfg" and st: "ramp_started s" and at: "ramp_at s sj j"
  shows "ms_cfg (ticks cfg m sj) =
           (if 1 \<le> j + m div 2
               \<and> ramp_value (sint (pwm_current s)) (sint (pwm_target s)) (j + m div 2) =
                  sint (pwm_target s)
            then 0 else 2)
       \<and> sint (pwm_current (ticks cfg m sj)) =
           ramp_value (sint (pwm_current s)) (sint (pwm_target s)) (j + m div 2)
       \<and> pwm_target (ticks cfg m sj) = pwm_target s"
proof (cases "even m")
  case True
  then obtain k where "m = 2 * k" by (auto elim: evenE)
  with ramp_run_even [OF ramped st at, of k] show ?thesis
    by (simp add: ramp_at_def)
next
  case False
  then obtain k where m: "m = Suc (2 * k)" by (auto elim: oddE)
  define sk where "sk = ticks cfg (2 * k) sj"
  note ev = ramp_run_even [OF ramped st at, of k, folded sk_def, unfolded ramp_at_def]
  have nx: "ticks cfg m sj = systick_isr cfg sk"
    by (simp only: m ticks_Suc_right sk_def)
  have "ms_cfg (systick_isr cfg sk) = ms_cfg sk \<and> pwm_current (systick_isr cfg sk) = pwm_current sk
        \<and> pwm_target (systick_isr cfg sk) = pwm_target sk"
  proof (cases "ms_cfg sk = 0")
    case True
    from ramp_of_tick(1) [OF ramped True] show ?thesis
      by (simp add: ramp_of_def)
  next
    case False
    with ev have "ms_cfg sk = 2" "ramp_delay_ms sk = 0"
      by (simp_all split: if_splits)
    from ramp_of_tick(2) [OF ramped this] this(1) show ?thesis
      by (simp add: ramp_of_def)
  qed
  with ev nx m show ?thesis
    by simp
qed

lemma ramp_run:
  assumes ramped: "PWM_RAMPED cfg" and st: "ramp_started s"
  shows "ms_cfg (ticks cfg n s) =
           (if 1 \<le> (n + unat (ramp_delay_ms s)) div 2
               \<and> ramp_value (sint (pwm_current s)) (sint (pwm_target s))
                    ((n + unat (ramp_delay_ms s)) div 2) = sint (pwm_target s)
            then 0 else 2)
       \<and> sint (pwm_current (ticks cfg n s)) =
           ramp_value (sint (pwm_current s)) (sint (pwm_target s))
             ((n + unat (ramp_delay_ms s)) div 2)
       \<and> pwm_target (ticks cfg n s) = pwm_target s"
proof (cases "ramp_delay_ms s = 0")
  case True
  with st have "ramp_at s s 0"
    by (simp add: ramp_at_def ramp_started_def ramp_value_0)
  from ramp_run_from [OF ramped st this, of n] True show ?thesis
    by simp
next
  case False
  with st have d: "ramp_delay_ms s = 1" and m: "ms_cfg s = 2"
    by (simp_all add: ramp_started_def)
  show ?thesis
  proof (cases n)
    case 0
    with d m show ?thesis
      by (simp add: ramp_value_0)
  next
    case (Suc m')
    have "ramp_at s (systick_isr cfg s) (Suc 0)"
      by (rule ramp_due_tick [OF ramped st m d]) (simp_all add: ramp_value_0)
    from ramp_run_from [OF ramped st this, of m'] Suc d show ?thesis
      by simp
  qed
qed

lemma ramp_frames_more [simp]:
  "ms_cfg (TimerEnable b s) = ms_cfg s"
  "ramp_delay_ms (TimerEnable b s) = ramp_delay_ms s"
  "pwm_current (TimerEnable b s) = pwm_current s"
  "pwm_target (TimerEnable b s) = pwm_target s"
  "pwm_step (TimerEnable b s) = pwm_step s"
  "ms_cfg (SysTickEnable s) = ms_cfg s"
  "ramp_delay_ms (SysTickEnable s) = ramp_delay_ms s"
  "pwm_current (SysTickEnable s) = pwm_current s"
  "pwm_target (SysTickEnable s) = pwm_target s"
  "pwm_step (SysTickEnable s) = pwm_step s"
  "ms_cfg (spindle_on cfg s) = ms_cfg s"
  "ramp_delay_ms (spindle_on cfg s) = ramp_delay_ms s"
  "pwm_current (spindle_on cfg s) = pwm_current s"
  "pwm_target (spindle_on cfg s) = pwm_target s"
  "pwm_step (spindle_on cfg s) = pwm_step s"
  by (simp_all add: TimerEnable_def SysTickEnable_def spindle_on_def emit_def)

lemma set_speed_ramped_fields:
  "ms_cfg (snd (spindle_set_speed_ramped cfg v s)) = 2"
  "pwm_target (snd (spindle_set_speed_ramped cfg v s)) = (if v = pwm_off_value cfg then 0 else v)"
  "pwm_step (snd (spindle_set_speed_ramped cfg v s)) =
     (if v = pwm_off_value cfg then - 20
      else if sint (pwm_target (snd (spindle_set_speed_ramped cfg v s)))
              < sint (pwm_current (snd (spindle_set_speed_ramped cfg v s)))
      then - 20 else 20)"
  "pwm_current (snd (spindle_set_speed_ramped cfg v s)) =
     (if v = pwm_off_value cfg \<or> pwmEnabled s then pwm_current s else pwm_min_value cfg)"
  "ramp_delay_ms (snd (spindle_set_speed_ramped cfg v s)) =
     (if v = pwm_off_value cfg \<or> \<not> pwmEnabled s then 0 else ramp_delay_ms s)"
  by (simp_all add: spindle_set_speed_ramped_def Let_def SPINDLE_RAMP_STEP_INCR_def
      SPINDLE_RAMP_STEP_TIME_def)

lemma set_speed_starts_ramp:
  assumes "ramp_delay_ms (snd (spindle_set_speed_ramped cfg v s)) = 0
           \<or> ramp_delay_ms (snd (spindle_set_speed_ramped cfg v s)) = 1"
    and "0 \<le> sint (pwm_current (snd (spindle_set_speed_ramped cfg v s)))"
    and "sint (pwm_current (snd (spindle_set_speed_ramped cfg v s))) \<le> 2147483627"
    and "0 \<le> sint (pwm_target (snd (spindle_set_speed_ramped cfg v s)))"
    and "sint (pwm_target (snd (spindle_set_speed_ramped cfg v s))) \<le> 2147483627"
  shows "ramp_started (snd (spindle_set_speed_ramped cfg v s))"
proof -
  define s1 where "s1 = snd (spindle_set_speed_ramped cfg v s)"
  note f = set_speed_ramped_fields(1-3) [of cfg v s, folded s1_def]
  note a = assms [folded s1_def]
  have ne: "(- 20 :: u32) \<noteq> 20"
    by simp
  show ?thesis
    unfolding s1_def [symmetric] ramp_started_def
  proof (cases "v = pwm_off_value cfg")
    case True
    with f have "pwm_step s1 = - 20" "pwm_target s1 = 0" "ms_cfg s1 = 2"
      by simp_all
    with a ne show "ms_cfg s1 = 2 \<and> (ramp_delay_ms s1 = 0 \<or> ramp_delay_ms s1 = 1)
      \<and> (if pwm_step s1 = 20 then sint (pwm_current s1) \<le> sint (pwm_target s1)
          else pwm_step s1 = - 20 \<and> sint (pwm_target s1) \<le> sint (pwm_current s1))
      \<and> - 2147483628 \<le> sint (pwm_current s1) \<and> sint (pwm_current s1) \<le> 2147483627
      \<and> - 2147483628 \<le> sint (pwm_target s1) \<and> sint (pwm_target s1) \<le> 2147483627"
      by simp
  next
    case False
    with f have "ms_cfg s1 = 2"
      "pwm_step s1 = (if sint (pwm_target s1) < sint (pwm_current s1) then - 20 else 20)"
      by simp_all
    with a ne show "ms_cfg s1 = 2 \<and> (ramp_delay_ms s1 = 0 \<or> ramp_delay_ms s1 = 1)
      \<and> (if pwm_step s1 = 20 then sint (pwm_current s1) \<le> sint (pwm_target s1)
          else pwm_step s1 = - 20 \<and> sint (pwm_target s1) \<le> sint (pwm_current s1))
      \<and> - 2147483628 \<le> sint (pwm_current s1) \<and> sint (pwm_current s1) \<le> 2147483627
      \<and> - 2147483628 \<le> sint (pwm_target s1) \<and> sint (pwm_target s1) \<le> 2147483627"
      by (cases "sint (pwm_target s1) < sint (pwm_current s1)") simp_all
  qed
qed

text \<open>
  C2. \<open>spindle_set_speed\<close> (ramped) has started a ramp from \<open>c0\<close> towards \<open>t\<close>, both between
  0 and \<open>2^31 - 21\<close>. After \<open>n\<close> SysTick ticks the ramp has made \<open>k\<close> ramp ticks, one for every
  2 SysTick ticks (\<open>SPINDLE_RAMP_STEP_TIME\<close>), the cadence counter's start included. Then
  \<open>pwm_current\<close> is \<open>c0\<close> moved by \<open>20 k\<close> towards \<open>t\<close> and clamped at \<open>t\<close>: it equals \<open>t\<close>
  exactly from ramp tick \<open>ceil(|t - c0| / 20)\<close> on, it always lies between \<open>c0\<close> and \<open>t\<close>,
  the target does not move, and \<open>ms_cfg\<close> is 0 from that ramp tick on and 2 before it.
  (A ramp started with \<open>c0 = t\<close> needs no tick to be at \<open>t\<close>; its \<open>ms_cfg\<close> is cleared by the
  first ramp tick, which leaves \<open>pwm_current\<close> at \<open>t\<close>.)
\<close>
theorem ramp_converges:
  assumes "PWM_RAMPED cfg"
    and "s1 = snd (spindle_set_speed_ramped cfg v s)"
    and "c0 = sint (pwm_current s1)" and "t = sint (pwm_target s1)"
    and "ramp_delay_ms s1 = 0 \<or> ramp_delay_ms s1 = 1"
    and "k = (n + unat (ramp_delay_ms s1)) div 2"
    and "0 \<le> c0" and "c0 \<le> 2147483627" and "0 \<le> t" and "t \<le> 2147483627"
  shows "sint (pwm_current (ticks cfg n s1)) = ramp_value c0 t k
       \<and> (sint (pwm_current (ticks cfg n s1)) = t) = (ramp_ticks c0 t \<le> k)
       \<and> min c0 t \<le> sint (pwm_current (ticks cfg n s1))
       \<and> sint (pwm_current (ticks cfg n s1)) \<le> max c0 t
       \<and> pwm_target (ticks cfg n s1) = pwm_target s1
       \<and> ms_cfg (ticks cfg n s1) = (if max 1 (ramp_ticks c0 t) \<le> k then 0 else 2)"
proof -
  from assms have "ramp_started s1"
    by (simp add: set_speed_starts_ramp)
  from ramp_run [OF assms(1) this, of n, folded assms(3) assms(4), folded assms(6)]
    ramp_value_reached [of c0 t k] ramp_value_between [of c0 t k]
  show ?thesis
    by (auto simp add: max_def)
qed

theorem ramp_converges_witness:
  "PWM_RAMPED cfg0
   \<and> ramp_delay_ms ramp_to_1000 = 0
   \<and> sint (pwm_current ramp_to_1000) = 100
   \<and> sint (pwm_target ramp_to_1000) = 1000
   \<and> ramp_ticks 100 1000 = 45
   \<and> sint (pwm_current (ticks cfg0 88 ramp_to_1000)) = 980
   \<and> ms_cfg (ticks cfg0 88 ramp_to_1000) = 2
   \<and> sint (pwm_current (ticks cfg0 90 ramp_to_1000)) = 1000
   \<and> ms_cfg (ticks cfg0 90 ramp_to_1000) = 0
   \<and> sint (pwm_current (ticks cfg0 200 ramp_to_1000)) = 1000"
proof -
  have h1: "PWM_RAMPED cfg0"
    by (simp add: cfg0_def)
  have h2: "ramp_to_1000 = snd (spindle_set_speed_ramped cfg0 1000 s0)"
    by (simp add: ramp_to_1000_def)
  have off: "(1000 :: u32) \<noteq> pwm_off_value cfg0" "\<not> pwmEnabled s0" "pwm_min_value cfg0 = 100"
    by (simp_all add: cfg0_def s0_def)
  have h3: "(100 :: int) = sint (pwm_current ramp_to_1000)"
    by (simp add: h2 set_speed_ramped_fields off)
  have h4: "(1000 :: int) = sint (pwm_target ramp_to_1000)"
    by (simp add: h2 set_speed_ramped_fields off)
  have h5: "ramp_delay_ms ramp_to_1000 = 0"
    by (simp add: h2 set_speed_ramped_fields off)
  have n: "ramp_ticks 100 1000 = 45"
    by (simp add: ramp_ticks_def)
  have v: "ramp_value 100 1000 44 = 980" "ramp_value 100 1000 45 = 1000"
    "ramp_value 100 1000 100 = 1000"
    by (simp_all add: ramp_value_def)
  have h6: "ramp_delay_ms ramp_to_1000 = 0 \<or> ramp_delay_ms ramp_to_1000 = 1"
    by (simp add: h5)
  note t = ramp_converges [OF h1 h2 h3 h4 h6 refl]
  from t [of 88] t [of 90] t [of 200] show ?thesis
    using h1 h5 by (simp add: h3 [symmetric] h4 [symmetric] n v)
qed

subsection \<open>Debounce filter\<close>

lemma limit_flag_latched:
  fixes old f m :: u32
  assumes "f AND m \<noteq> 0"
  shows "(old OR f) AND m \<noteq> 0"
proof
  assume "(old OR f) AND m = 0"
  then have "(old AND m) OR (f AND m) = 0"
    by (simp add: bit.conj_disj_distrib2)
  then have "f AND m = 0"
    by (simp add: or_eq_0_iff)
  with assms show False by simp
qed

lemma limit_edge_eq:
  assumes "flags AND ucast (HWLIMIT_MASK cfg) \<noteq> 0"
  shows "limit_edge cfg levels flags s =
     TimerEnable (DEBOUNCE_TIMER_BASE cfg)
       (TimerLoadSet (DEBOUNCE_TIMER_BASE cfg) 32000
          (GPIOIntClear (LIMIT_PORT cfg) (gpio_mis s (LIMIT_PORT cfg) OR flags)
             (gpio_irq (LIMIT_PORT cfg) flags (gpio_levels (LIMIT_PORT cfg) levels s))))"
  using limit_flag_latched [OF assms, of "gpio_mis s (LIMIT_PORT cfg)"]
  by (simp add: limit_edge_def limit_isr_debounced_def Let_def GPIOIntStatus_def gpio_irq_def
      gpio_levels_def)

lemma limit_edge_arms:
  assumes "flags AND ucast (HWLIMIT_MASK cfg) \<noteq> 0"
  shows "debounce_armed cfg (limit_edge cfg levels flags s)"
    and "limit_notifications (limit_edge cfg levels flags s) = limit_notifications s"
    and "new_calls s (limit_edge cfg levels flags s) =
           [E_GPIOIntClear (LIMIT_PORT cfg) (gpio_mis s (LIMIT_PORT cfg) OR flags),
            E_TimerLoadSet (DEBOUNCE_TIMER_BASE cfg) 32000,
            E_TimerEnable (DEBOUNCE_TIMER_BASE cfg)]"
  by (simp_all add: limit_edge_eq [OF assms] debounce_armed_def limit_notifications_def
      new_calls_def hw_defs gpio_irq_def gpio_levels_def)

lemma elapse_short:
  assumes "timer_enabled s (DEBOUNCE_TIMER_BASE cfg)"
    and "n < unat (timer_count s (DEBOUNCE_TIMER_BASE cfg))"
  shows "limit_notifications (elapse cfg n s) = limit_notifications s"
    and "timer_enabled (elapse cfg n s) (DEBOUNCE_TIMER_BASE cfg)"
    and "trace (elapse cfg n s) = trace s"
  using assms by (simp_all add: elapse_def Let_def limit_notifications_def)

lemma limitsGetState_frame:
  "gpio_data s' = gpio_data s \<Longrightarrow> uninit_signals s' = uninit_signals s \<Longrightarrow>
   limitsGetState cfg s' = limitsGetState cfg s"
  by (simp add: limitsGetState_def GPIOPinRead_def)

lemma elapse_fire:
  assumes "timer_enabled s (DEBOUNCE_TIMER_BASE cfg)"
    and "unat (timer_count s (DEBOUNCE_TIMER_BASE cfg)) \<le> n"
  shows "limit_notifications (elapse cfg n s) =
           limit_notifications s @
           (if limitsGetState cfg s \<noteq> 0 then [E_limit_interrupt_callback (limitsGetState cfg s)]
            else [])"
    and "\<not> timer_enabled (elapse cfg n s) (DEBOUNCE_TIMER_BASE cfg)"
proof -
  define s1 where "s1 = TimerIntClear (DEBOUNCE_TIMER_BASE cfg) TIMER_TIMA_TIMEOUT
       (timer_irq (DEBOUNCE_TIMER_BASE cfg) TIMER_TIMA_TIMEOUT
          (s\<lparr>timer_enabled := (timer_enabled s)(DEBOUNCE_TIMER_BASE cfg := False),
             timer_count := (timer_count s)
               (DEBOUNCE_TIMER_BASE cfg := timer_load s (DEBOUNCE_TIMER_BASE cfg))\<rparr>))"
  have g: "limitsGetState cfg s1 = limitsGetState cfg s"
    by (rule limitsGetState_frame) (simp_all add: s1_def hw_defs timer_irq_def)
  have e: "elapse cfg n s =
             (if limitsGetState cfg s \<noteq> 0
              then limit_interrupt_callback (limitsGetState cfg s) s1 else s1)"
    using assms by (simp add: elapse_def software_debounce_isr_def Let_def s1_def [symmetric] g)
  have t1: "trace s1 = trace s @ [E_TimerIntClear (DEBOUNCE_TIMER_BASE cfg) TIMER_TIMA_TIMEOUT]"
    and en: "\<not> timer_enabled s1 (DEBOUNCE_TIMER_BASE cfg)"
    by (simp_all add: s1_def hw_defs timer_irq_def)
  show "limit_notifications (elapse cfg n s) =
           limit_notifications s @
           (if limitsGetState cfg s \<noteq> 0 then [E_limit_interrupt_callback (limitsGetState cfg s)]
            else [])"
    by (simp add: e limit_notifications_def limit_interrupt_callback_def emit_def t1)
  show "\<not> timer_enabled (elapse cfg n s) (DEBOUNCE_TIMER_BASE cfg)"
    using en by (simp add: e limit_interrupt_callback_def emit_def)
qed

lemma burst_keeps_armed:
  assumes "debounce_armed cfg s" and "list_all (burst_ok cfg) es"
  shows "debounce_armed cfg (burst cfg es s)
         \<and> limit_notifications (burst cfg es s) = limit_notifications s"
  using assms
proof (induction es arbitrary: s)
  case Nil
  then show ?case by simp
next
  case (Cons e es)
  obtain gap levels flags where e: "e = (gap, levels, flags)"
    by (cases e)
  from Cons.prems e have gap: "gap < 32000" and fl: "flags AND ucast (HWLIMIT_MASK cfg) \<noteq> 0"
    and rest: "list_all (burst_ok cfg) es"
    by simp_all
  from Cons.prems(1) gap have en: "timer_enabled s (DEBOUNCE_TIMER_BASE cfg)"
    and lt: "gap < unat (timer_count s (DEBOUNCE_TIMER_BASE cfg))"
    by (simp_all add: debounce_armed_def)
  define s' where "s' = limit_edge cfg levels flags (elapse cfg gap s)"
  have a: "debounce_armed cfg s'"
    unfolding s'_def by (rule limit_edge_arms(1) [OF fl])
  have n: "limit_notifications s' = limit_notifications s"
    unfolding s'_def by (simp add: limit_edge_arms(2) [OF fl] elapse_short(1) [OF en lt])
  from Cons.IH [OF a rest] n e show ?case
    by (simp add: s'_def)
qed

lemma limit_edge_pins:
  "gpio_data (limit_edge cfg levels flags s) = (gpio_data s)(LIMIT_PORT cfg := levels)"
  "uninit_signals (limit_edge cfg levels flags s) = uninit_signals s"
  by (simp_all add: limit_edge_def limit_isr_debounced_def Let_def hw_defs gpio_irq_def
      gpio_levels_def)

lemma elapse_short_count:
  assumes "timer_enabled s (DEBOUNCE_TIMER_BASE cfg)"
    and "n < unat (timer_count s (DEBOUNCE_TIMER_BASE cfg))"
  shows "timer_count (elapse cfg n s) (DEBOUNCE_TIMER_BASE cfg) =
           timer_count s (DEBOUNCE_TIMER_BASE cfg) - of_nat n"
  using assms by (simp add: elapse_def Let_def)

lemma flags_cleared:
  fixes a f :: "'a::len word"
  shows "(a OR f) AND NOT a AND NOT f = 0"
  by (rule bit_word_eqI) (auto simp add: bit_and_iff bit_or_iff bit_not_iff)

lemma limit_edge_mis:
  assumes "flags AND ucast (HWLIMIT_MASK cfg) \<noteq> 0"
  shows "gpio_mis (limit_edge cfg levels flags s) (LIMIT_PORT cfg) = 0"
  by (simp add: limit_edge_eq [OF assms] hw_defs gpio_irq_def gpio_levels_def flags_cleared)

lemma elapse_mis: "gpio_mis (elapse cfg n s) = gpio_mis s"
  by (simp add: elapse_def software_debounce_isr_def Let_def hw_defs timer_irq_def)

lemma elapse_pins:
  "gpio_data (elapse cfg n s) = gpio_data s"
  "uninit_signals (elapse cfg n s) = uninit_signals s"
  by (simp_all add: elapse_def software_debounce_isr_def Let_def hw_defs timer_irq_def)

text \<open>
  C3, as amended. With software debounce on, every raw limit edge clears the port's
  interrupt flags, reloads the debounce timer with 32000 and enables it, whether or not
  the timer is running: a later edge starts the window again. A burst of edges less than
  32 ms apart produces no notification while it lasts. After its last edge the timer
  runs for 32 ms with no notification; when it expires it stops, the limit state is
  sampled, and one notification with that state is produced if the state is non-zero,
  none otherwise.
\<close>
theorem debounce_window_restarts:
  assumes "f0 AND ucast (HWLIMIT_MASK cfg) \<noteq> 0"
    and "list_all (burst_ok cfg) es"
    and "sB = burst cfg es (limit_edge cfg l0 f0 s)"
  shows "new_calls s (limit_edge cfg l0 f0 s) =
           [E_GPIOIntClear (LIMIT_PORT cfg) (gpio_mis s (LIMIT_PORT cfg) OR f0),
            E_TimerLoadSet (DEBOUNCE_TIMER_BASE cfg) 32000,
            E_TimerEnable (DEBOUNCE_TIMER_BASE cfg)]
       \<and> debounce_armed cfg (limit_edge cfg l0 f0 s)
       \<and> debounce_armed cfg sB
       \<and> limit_notifications sB = limit_notifications s
       \<and> (\<forall>n<32000. limit_notifications (elapse cfg n sB) = limit_notifications s
                     \<and> timer_enabled (elapse cfg n sB) (DEBOUNCE_TIMER_BASE cfg))
       \<and> (\<forall>n\<ge>32000. limit_notifications (elapse cfg n sB) =
                       limit_notifications s @
                       (if limitsGetState cfg sB \<noteq> 0
                        then [E_limit_interrupt_callback (limitsGetState cfg sB)] else [])
                     \<and> \<not> timer_enabled (elapse cfg n sB) (DEBOUNCE_TIMER_BASE cfg))"
proof -
  note first = limit_edge_arms [OF assms(1), where levels = l0 and s = s]
  from burst_keeps_armed [OF first(1) assms(2)] first(2)
  have armed: "debounce_armed cfg sB" and quiet: "limit_notifications sB = limit_notifications s"
    by (simp_all add: assms(3))
  from armed have en: "timer_enabled sB (DEBOUNCE_TIMER_BASE cfg)"
    and cnt: "unat (timer_count sB (DEBOUNCE_TIMER_BASE cfg)) = 32000"
    by (simp_all add: debounce_armed_def)
  have before: "limit_notifications (elapse cfg n sB) = limit_notifications s
                \<and> timer_enabled (elapse cfg n sB) (DEBOUNCE_TIMER_BASE cfg)" if "n < 32000" for n
    using elapse_short(1,2) [OF en, of n] that by (simp add: cnt quiet)
  have at: "limit_notifications (elapse cfg n sB) =
              limit_notifications s @
              (if limitsGetState cfg sB \<noteq> 0
               then [E_limit_interrupt_callback (limitsGetState cfg sB)] else [])
            \<and> \<not> timer_enabled (elapse cfg n sB) (DEBOUNCE_TIMER_BASE cfg)" if "32000 \<le> n" for n
    using elapse_fire [OF en, of n] that by (simp add: cnt quiet)
  from first(3) first(1) armed quiet before at show ?thesis
    by blast
qed

theorem debounce_window_restarts_witness:
  "(0x10 :: u32) AND ucast (HWLIMIT_MASK cfg0) \<noteq> 0
   \<and> list_all (burst_ok cfg0) [(5000, 0x10, 0x10)]
   \<and> debounce_t5 = burst cfg0 [(5000, 0x10, 0x10)] (limit_edge cfg0 0x10 0x10 s0)
   \<and> limit_notifications debounce_t5 = []
   \<and> limit_notifications (elapse cfg0 31999 debounce_t5) = []
   \<and> limit_notifications (elapse cfg0 32000 debounce_t5) = [E_limit_interrupt_callback 1]"
proof -
  have h1: "(0x10 :: u32) AND ucast (HWLIMIT_MASK cfg0) \<noteq> 0"
    by (simp add: cfg0_def)
  have h2: "list_all (burst_ok cfg0) [(5000, 0x10, 0x10)]"
    by (simp add: cfg0_def)
  have h3: "debounce_t5 = burst cfg0 [(5000, 0x10, 0x10)] (limit_edge cfg0 0x10 0x10 s0)"
    by (simp add: debounce_t5_def debounce_t0_def)
  have u: "uninit_signals debounce_t5 = 0"
    by (simp add: debounce_t5_def debounce_t0_def limit_edge_pins elapse_pins s0_def)
  have p: "gpio_data debounce_t5 (LIMIT_PORT cfg0) = 0x10"
    by (simp add: debounce_t5_def limit_edge_pins)
  have g: "limitsGetState cfg0 debounce_t5 = 1"
    by (simp add: limitsGetState_def GPIOPinRead_def Let_def u p) (simp add: cfg0_def)
  have z: "limit_notifications s0 = []"
    by (simp add: limit_notifications_def s0_def)
  note t = debounce_window_restarts [OF h1 h2 h3]
  note t4 = t [THEN conjunct2, THEN conjunct2, THEN conjunct2, THEN conjunct1]
  note t5 = t [THEN conjunct2, THEN conjunct2, THEN conjunct2, THEN conjunct2, THEN conjunct1,
      rule_format, of 31999]
  note t6 = t [THEN conjunct2, THEN conjunct2, THEN conjunct2, THEN conjunct2, THEN conjunct2,
      rule_format, of 32000]
  from t4 t5 t6 show ?thesis
    using h1 h2 h3 by (simp add: g z)
qed

text \<open>
  Two edges 5 ms apart with the switch held closed: the second edge finds 27 ms left on the
  timer and loads it to 32 ms again; 32 ms after the first edge there has been no
  notification and the timer is running with 5 ms left; the one notification comes
  37 ms after the first edge.
\<close>
theorem debounce_first_edge_window_counterexample:
  "limit_notifications debounce_t0 = []
   \<and> timer_count (elapse cfg0 5000 debounce_t0) (DEBOUNCE_TIMER_BASE cfg0) = 27000
   \<and> new_calls (elapse cfg0 5000 debounce_t0) debounce_t5 =
        [E_GPIOIntClear (LIMIT_PORT cfg0) 0x10,
         E_TimerLoadSet (DEBOUNCE_TIMER_BASE cfg0) 32000,
         E_TimerEnable (DEBOUNCE_TIMER_BASE cfg0)]
   \<and> timer_count debounce_t5 (DEBOUNCE_TIMER_BASE cfg0) = 32000
   \<and> limit_notifications debounce_t32 = []
   \<and> timer_enabled debounce_t32 (DEBOUNCE_TIMER_BASE cfg0)
   \<and> timer_count debounce_t32 (DEBOUNCE_TIMER_BASE cfg0) = 5000
   \<and> limit_notifications debounce_t37 = [E_limit_interrupt_callback 1]"
proof -
  have h: "(0x10 :: u32) AND ucast (HWLIMIT_MASK cfg0) \<noteq> 0"
    by (simp add: cfg0_def)
  have z: "limit_notifications s0 = []"
    by (simp add: limit_notifications_def s0_def)
  note e0 = limit_edge_arms [OF h, where levels = "0x10" and s = s0, folded debounce_t0_def]
  from e0(1) have en0: "timer_enabled debounce_t0 (DEBOUNCE_TIMER_BASE cfg0)"
    and lt0: "5000 < unat (timer_count debounce_t0 (DEBOUNCE_TIMER_BASE cfg0))"
    and c0: "timer_count debounce_t0 (DEBOUNCE_TIMER_BASE cfg0) = 32000"
    by (simp_all add: debounce_armed_def)
  have n0: "limit_notifications debounce_t0 = []"
    by (simp add: e0(2) z)
  have c1: "timer_count (elapse cfg0 5000 debounce_t0) (DEBOUNCE_TIMER_BASE cfg0) = 27000"
    by (simp add: elapse_short_count [OF en0 lt0] c0)
  have n1: "limit_notifications (elapse cfg0 5000 debounce_t0) = []"
    by (simp add: elapse_short(1) [OF en0 lt0] n0)
  have m1: "gpio_mis (elapse cfg0 5000 debounce_t0) (LIMIT_PORT cfg0) = 0"
    by (simp add: elapse_mis debounce_t0_def limit_edge_mis [OF h])
  note e5 = limit_edge_arms [OF h, where levels = "0x10" and s = "elapse cfg0 5000 debounce_t0",
      folded debounce_t5_def]
  from e5(1) have en5: "timer_enabled debounce_t5 (DEBOUNCE_TIMER_BASE cfg0)"
    and lt5: "27000 < unat (timer_count debounce_t5 (DEBOUNCE_TIMER_BASE cfg0))"
    and c5: "timer_count debounce_t5 (DEBOUNCE_TIMER_BASE cfg0) = 32000"
    by (simp_all add: debounce_armed_def)
  have k5: "new_calls (elapse cfg0 5000 debounce_t0) debounce_t5 =
        [E_GPIOIntClear (LIMIT_PORT cfg0) 0x10,
         E_TimerLoadSet (DEBOUNCE_TIMER_BASE cfg0) 32000,
         E_TimerEnable (DEBOUNCE_TIMER_BASE cfg0)]"
    by (simp add: e5(3) m1)
  have n5: "limit_notifications debounce_t5 = []"
    by (simp add: e5(2) n1)
  have n32: "limit_notifications debounce_t32 = []"
    and en32: "timer_enabled debounce_t32 (DEBOUNCE_TIMER_BASE cfg0)"
    unfolding debounce_t32_def
    by (simp_all add: elapse_short(1,2) [OF en5 lt5] n5)
  have c32: "timer_count debounce_t32 (DEBOUNCE_TIMER_BASE cfg0) = 5000"
    unfolding debounce_t32_def by (simp add: elapse_short_count [OF en5 lt5] c5)
  then have le32: "unat (timer_count debounce_t32 (DEBOUNCE_TIMER_BASE cfg0)) \<le> 5000"
    by simp
  have u: "uninit_signals debounce_t32 = 0"
    by (simp add: debounce_t32_def debounce_t5_def debounce_t0_def limit_edge_pins elapse_pins
        s0_def)
  have p: "gpio_data debounce_t32 (LIMIT_PORT cfg0) = 0x10"
    by (simp add: debounce_t32_def debounce_t5_def limit_edge_pins elapse_pins)
  have g: "limitsGetState cfg0 debounce_t32 = 1"
    by (simp add: limitsGetState_def GPIOPinRead_def Let_def u p) (simp add: cfg0_def)
  have n37: "limit_notifications debounce_t37 = [E_limit_interrupt_callback 1]"
    unfolding debounce_t37_def by (simp add: elapse_fire(1) [OF en32 le32] n32 g)
  from n0 c1 k5 c5 n32 en32 c32 n37 show ?thesis
    by simp
qed

end
